theory Spec2Isabelle
  imports Main "HOL-Library.Word" "HOL-Library.AList"
begin

section \<open>Endpoint discovery (pilot/pkg/proxy/envoy/v2/eds.go)\<close>

text \<open>
  A shallow embedding of the endpoint discovery code of \<^verbatim>\<open>eds.go\<close>. Go structs are
  records, nullable pointers are options, \<^verbatim>\<open>uint32\<close> is \<^typ>\<open>32 word\<close>, and every function
  that writes through a pointer takes the object it writes to and returns it updated.
  Go maps that are only looked up are partial functions; maps that are ranged over or
  measured with \<^verbatim>\<open>len\<close> are association lists read through \<^const>\<open>map_of\<close>. Go ranges over a
  map in an unspecified order: the model ranges in the order of the list, and the
  theorems are stated for every list. A slice of pointers that the code dereferences
  without a test for nil is the list of the objects pointed to. Locks and logging have
  no counterpart: each function is modelled as it runs alone.
\<close>

subsection \<open>Wire types\<close>

type_synonym uint32 = "32 word"

datatype AddressFamily = AddressFamilyTCP | AddressFamilyUnix | AddressFamilyOther

text \<open>\<^verbatim>\<open>core.Address\<close>: the zero value, a socket address or a pipe.\<close>

datatype Address = Address_Unset | Address_SocketAddress string uint32 | Address_Pipe string

text \<open>
  \<^verbatim>\<open>core.Metadata\<close> is a map from a filter name to a \<^verbatim>\<open>types.Struct\<close>, whose \<^verbatim>\<open>Fields\<close>
  map a name to a value; every value built in this file is a string value.
\<close>

type_synonym Fields = "string \<rightharpoonup> string"
type_synonym FilterMetadata = "string \<rightharpoonup> Fields"

record LbEndpoint =
  Endpoint_Address :: Address
  Metadata :: "FilterMetadata option"

record Locality =
  Region :: string
  Zone :: string
  SubZone :: string

record LocalityLbEndpoints =
  Locality :: "Locality option"
  LbEndpoints :: "LbEndpoint list"
  LoadBalancingWeight :: "uint32 option"

subsection \<open>Weight normalizer\<close>

definition maxLoadBalancingWeight :: uint32 where
  "maxLoadBalancingWeight = 128"

text \<open>\<^verbatim>\<open>GetLoadBalancingWeight().GetValue()\<close>: a nil wrapper reads as 0.\<close>

definition GetValue :: "uint32 option \<Rightarrow> uint32" where
  "GetValue w = (case w of None \<Rightarrow> 0 | Some v \<Rightarrow> v)"

text \<open>
  The quotient \<^verbatim>\<open>float64(x) / float64(y)\<close> of two \<^verbatim>\<open>uint32\<close> values. Both conversions
  are exact (a float64 has a 53-bit significand). For \<open>0 < x\<close> and \<open>0 < y\<close> the quotient
  lies in \<open>[2\<^sup>-\<^sup>3\<^sup>2, 2\<^sup>3\<^sup>2)\<close>, so the result is a normal number: the significand \<open>m\<close> with
  \<open>2\<^sup>5\<^sup>2 \<le> m \<le> 2\<^sup>5\<^sup>3\<close> nearest to \<open>x \<cdot> 2\<^sup>s / y\<close>, ties to even, at the scale \<open>s\<close> that puts
  the exact quotient in \<open>[2\<^sup>5\<^sup>2, 2\<^sup>5\<^sup>3)\<close>. The value is \<open>m / 2\<^sup>s\<close>, kept as the pair
  \<open>(m, s)\<close>.
\<close>

fun Len :: "nat \<Rightarrow> nat" where
  "Len n = (if n = 0 then 0 else Suc (Len (n div 2)))"

declare Len.simps [simp del]

definition round_half_even :: "nat \<Rightarrow> nat \<Rightarrow> nat" where
  "round_half_even n d =
     (let q = n div d; r = n mod d
      in if 2 * r < d then q
         else if d < 2 * r then q + 1
         else if even q then q else q + 1)"

definition float64_div :: "nat \<Rightarrow> nat \<Rightarrow> nat \<times> nat" where
  "float64_div x y =
     (if x = 0 then (0, 0)
      else let s0 = 52 + Len y - Len x;
               s = (if 2 ^ 52 * y \<le> x * 2 ^ s0 then s0 else s0 + 1)
           in (round_half_even (x * 2 ^ s) y, s))"

text \<open>\<^verbatim>\<open>uint32(math.Ceil(w))\<close> for a float64 \<open>w = m / 2\<^sup>s\<close> below \<open>2\<^sup>3\<^sup>2\<close>.\<close>

definition Ceil_uint32 :: "nat \<times> nat \<Rightarrow> uint32" where
  "Ceil_uint32 w = (case w of (m, s) \<Rightarrow> of_nat ((m + 2 ^ s - 1) div 2 ^ s))"

text \<open>
  The first loop of \<^verbatim>\<open>normalizeLoadBalancingWeight\<close>: the \<^verbatim>\<open>uint32\<close> sum of the weights,
  which wraps around.
\<close>

definition totalLbEndpointsNum :: "LocalityLbEndpoints list \<Rightarrow> uint32" where
  "totalLbEndpointsNum endpoints =
     fold (\<lambda>e t. t + GetValue (LoadBalancingWeight e)) endpoints 0"

text \<open>
  The body of the second loop. The product with \<^verbatim>\<open>maxLoadBalancingWeight\<close> is a \<^verbatim>\<open>uint32\<close>
  product, taken before the conversion to float64.
\<close>

definition normalizeWeight :: "uint32 \<Rightarrow> LocalityLbEndpoints \<Rightarrow> LocalityLbEndpoints" where
  "normalizeWeight totalNum e =
     e\<lparr>LoadBalancingWeight :=
         Some (Ceil_uint32 (float64_div
           (unat (GetValue (LoadBalancingWeight e) * maxLoadBalancingWeight))
           (unat totalNum)))\<rparr>"

text \<open>
  The loop variable is a copy of the element, and the copy goes to the fresh slice
  \<^verbatim>\<open>out\<close>: the function never writes to \<^verbatim>\<open>endpoints\<close>.
\<close>

definition normalizeLoadBalancingWeight ::
  "LocalityLbEndpoints list \<Rightarrow> LocalityLbEndpoints list" where
  "normalizeLoadBalancingWeight endpoints =
     (let totalNum = totalLbEndpointsNum endpoints
      in if totalNum = 0 then endpoints
         else map (normalizeWeight totalNum) endpoints)"

subsection \<open>Package model\<close>

text \<open>
  The types of package \<^verbatim>\<open>model\<close> that this file reads. \<^verbatim>\<open>Labels\<close> is a Go map from label
  name to value, kept as an association list; a missing key reads as the empty string.
\<close>

type_synonym Labels = "(string \<times> string) list"

definition label :: "Labels \<Rightarrow> string \<Rightarrow> string" where
  "label ls k = (case map_of ls k of None \<Rightarrow> [] | Some v \<Rightarrow> v)"

datatype error = Error string

datatype TrafficDirection =
  TrafficDirectionInbound | TrafficDirectionOutbound | TrafficDirectionOther

record NetworkEndpoint =
  NetworkEndpoint_Family :: AddressFamily
  NetworkEndpoint_Address :: string
  NetworkEndpoint_Port :: int
  NetworkEndpoint_UID :: string
  NetworkEndpoint_Network :: string

record ServiceInstance =
  Endpoint :: NetworkEndpoint
  ServiceInstance_Labels :: Labels
  ServiceInstance_ServiceAccount :: string

record IstioEndpoint =
  Family :: AddressFamily
  Address :: string
  EndpointPort :: uint32
  ServicePortName :: string
  Labels :: Labels
  UID :: string
  ServiceAccount :: string
  Network :: string
  EnvoyEndpoint :: "LbEndpoint option"

record Port =
  Port_Name :: string
  Port_Port :: int
  Port_Protocol :: string

text \<open>
  The functions and constants of package \<^verbatim>\<open>model\<close> (and \<^verbatim>\<open>util\<close>) that the code calls and
  whose bodies are not part of this file: they are parameters of the model.
\<close>

record ModelPkg =
  ParseSubsetKey :: "string \<Rightarrow> TrafficDirection \<times> string \<times> string \<times> int"
  ValidateNetworkEndpointAddress :: "NetworkEndpoint \<Rightarrow> error option"
  GetNetworkEndpointAddress :: "NetworkEndpoint \<Rightarrow> Address"
  GetAZ :: "ServiceInstance \<Rightarrow> string"
  AZLabel :: string

text \<open>
  Modelled from the spec: \<^verbatim>\<open>HasSubsetOf\<close> of package \<^verbatim>\<open>model\<close>, whose code is missing. The
  spec: "an endpoint matches iff its labels contain every key with equal value".
\<close>

definition HasSubsetOf :: "Labels \<Rightarrow> Labels \<Rightarrow> bool" where
  "HasSubsetOf labels that = list_all (\<lambda>(k, v). map_of that k = Some v) labels"

text \<open>
  Modelled from the spec: \<^verbatim>\<open>PortList.GetByPort\<close> of package \<^verbatim>\<open>model\<close>, whose code is
  missing. The spec: "look up the port-name for port-number via the push context's
  service-port mapping"; absent when the list has no port of that number.
\<close>

definition GetByPort :: "Port list \<Rightarrow> int \<Rightarrow> Port option" where
  "GetByPort ports num = find (\<lambda>p. Port_Port p = num) ports"

text \<open>
  The push context: the port lists by hostname, the selector labels of a subset of a
  host, and the clusters for which \<^verbatim>\<open>push.Add\<close> has recorded the status
  \<^verbatim>\<open>ProxyStatusClusterNoInstances\<close>.
\<close>

record PushContext =
  ServicePort2Name :: "string \<rightharpoonup> Port list"
  SubsetToLabels :: "string \<Rightarrow> string \<Rightarrow> Labels"
  ProxyStatusClusterNoInstances :: "string list"

subsection \<open>Server state\<close>

record EndpointShard =
  Shard :: string
  Entries :: "IstioEndpoint list"

text \<open>
  \<^verbatim>\<open>ServiceAccounts\<close> is a \<^verbatim>\<open>map[string]bool\<close> read only through the presence of a key:
  the set of its keys.
\<close>

record EndpointShardsByService =
  Shards :: "(string \<times> EndpointShard) list"
  ServiceAccounts :: "string set"

text \<open>
  The fields of \<^verbatim>\<open>DiscoveryServer\<close> that this file writes. \<^verbatim>\<open>edsUpdates\<close> maps a service name
  to the very pointer that \<^verbatim>\<open>EndpointShardsByService\<close> holds for it, so the model keeps its
  keys. \<^verbatim>\<open>ConfigUpdate\<close> is defined elsewhere: the model records the argument of every call,
  in order.
\<close>

record DiscoveryServer =
  EndpointShardsByService :: "string \<rightharpoonup> EndpointShardsByService"
  edsUpdates :: "string set"
  ConfigUpdate_calls :: "bool list"

record ClusterLoadAssignment =
  ClusterName :: string
  Endpoints :: "LocalityLbEndpoints list"

text \<open>
  A connection is known to this file by its pointer only. Times are numbers, 0 the zero
  time; \<^verbatim>\<open>time.Now()\<close> is a parameter \<open>now\<close> of the functions that read the clock.
\<close>

type_synonym XdsConnection = nat
type_synonym Time = nat

record EdsCluster =
  LoadAssignment :: "ClusterLoadAssignment option"
  FirstUse :: Time
  EdsClients :: "(string \<times> XdsConnection) list"
  NonEmptyTime :: Time

text \<open>
  What the assignment builders leave outside their arguments: the error counter, the
  gauge of instances per cluster, and the queries sent to the service registry.
\<close>

record Effects =
  totalXDSInternalErrors :: nat
  edsInstances :: "string \<rightharpoonup> nat"
  InstancesByPort_calls :: "(string \<times> int \<times> Labels) list"

type_synonym ServiceDiscovery = "string \<Rightarrow> int \<Rightarrow> Labels \<Rightarrow> error + ServiceInstance list"

subsection \<open>Wire endpoints\<close>

definition istioMetadata :: "Fields \<Rightarrow> FilterMetadata" where
  "istioMetadata flds = [''istio'' \<mapsto> flds]"

definition buildEnvoyLbEndpoint ::
  "string \<Rightarrow> AddressFamily \<Rightarrow> string \<Rightarrow> uint32 \<Rightarrow> string \<Rightarrow> LbEndpoint" where
  "buildEnvoyLbEndpoint uid fam address port network =
     (let addr = (case fam of
                    AddressFamilyTCP \<Rightarrow> Address_SocketAddress address port
                  | AddressFamilyUnix \<Rightarrow> Address_Pipe address
                  | AddressFamilyOther \<Rightarrow> Address_Unset);
          ep = \<lparr>Endpoint_Address = addr, Metadata = None\<rparr>
      in if uid \<noteq> []
         then ep\<lparr>Metadata := Some (istioMetadata [''uid'' \<mapsto> uid, ''network'' \<mapsto> network])\<rparr>
         else ep)"

text \<open>
  \<^verbatim>\<open>ep.Metadata.FilterMetadata["istio"].Fields[k] = v\<close>. The code runs it only after it has
  created the metadata with its \<^verbatim>\<open>istio\<close> entry.
\<close>

definition setIstioField :: "string \<Rightarrow> string \<Rightarrow> LbEndpoint \<Rightarrow> LbEndpoint" where
  "setIstioField k v ep =
     (case Metadata ep of
        None \<Rightarrow> ep
      | Some md \<Rightarrow>
          (case md ''istio'' of
             None \<Rightarrow> ep
           | Some flds \<Rightarrow> ep\<lparr>Metadata := Some (md(''istio'' \<mapsto> flds(k \<mapsto> v)))\<rparr>))"

definition networkEndpointToEnvoyEndpoint ::
  "ModelPkg \<Rightarrow> NetworkEndpoint \<Rightarrow> error + LbEndpoint" where
  "networkEndpointToEnvoyEndpoint M e =
     (case ValidateNetworkEndpointAddress M e of
        Some err \<Rightarrow> Inl err
      | None \<Rightarrow>
          (let ep0 = \<lparr>Endpoint_Address = GetNetworkEndpointAddress M e, Metadata = None\<rparr>;
               ep1 = (if NetworkEndpoint_UID e \<noteq> [] \<or> NetworkEndpoint_Network e \<noteq> []
                      then ep0\<lparr>Metadata := Some (istioMetadata Map.empty)\<rparr> else ep0);
               ep2 = (if NetworkEndpoint_UID e \<noteq> []
                      then setIstioField ''uid'' (NetworkEndpoint_UID e) ep1 else ep1);
               ep3 = (if NetworkEndpoint_Network e \<noteq> []
                      then setIstioField ''network'' (NetworkEndpoint_Network e) ep2 else ep2)
           in Inr ep3))"

subsection \<open>Assignment builders\<close>

text \<open>
  The body shared by both builders: find the group of the locality in \<^verbatim>\<open>localityEpMap\<close>,
  creating it when missing, and append the endpoint to it.
\<close>

type_synonym localityEpMap = "(string \<times> LocalityLbEndpoints) list"

definition newLocalityLbEndpoints :: "string \<Rightarrow> LocalityLbEndpoints" where
  "newLocalityLbEndpoints locality =
     \<lparr>Locality = Some \<lparr>Region = [], Zone = locality, SubZone = []\<rparr>,
      LbEndpoints = [], LoadBalancingWeight = None\<rparr>"

definition appendLbEndpoint :: "string \<Rightarrow> LbEndpoint \<Rightarrow> localityEpMap \<Rightarrow> localityEpMap" where
  "appendLbEndpoint locality lbEp m =
     (let locLbEps = (case map_of m locality of
                        None \<Rightarrow> newLocalityLbEndpoints locality
                      | Some g \<Rightarrow> g)
      in AList.update locality (locLbEps\<lparr>LbEndpoints := LbEndpoints locLbEps @ [lbEp]\<rparr>) m)"

text \<open>
  \<^verbatim>\<open>localityLbEndpointsFromInstances\<close>: the loop carries the map and the error counter; an
  instance whose endpoint does not convert is counted and skipped.
\<close>

fun instancesLoop ::
  "ModelPkg \<Rightarrow> ServiceInstance list \<Rightarrow> localityEpMap \<times> nat \<Rightarrow> localityEpMap \<times> nat" where
  "instancesLoop M [] acc = acc"
| "instancesLoop M (instance # instances) (m, errs) =
     (case networkEndpointToEnvoyEndpoint M (Endpoint instance) of
        Inl err \<Rightarrow> instancesLoop M instances (m, errs + 1)
      | Inr lbEp \<Rightarrow> instancesLoop M instances (appendLbEndpoint (GetAZ M instance) lbEp m, errs))"

definition localityLbEndpointsFromInstances ::
  "ModelPkg \<Rightarrow> ServiceInstance list \<Rightarrow> nat \<Rightarrow> LocalityLbEndpoints list \<times> nat" where
  "localityLbEndpointsFromInstances M instances errs =
     (case instancesLoop M instances ([], errs) of (m, errs') \<Rightarrow> (map snd m, errs'))"

definition setWeightToLen :: "LocalityLbEndpoints \<Rightarrow> LocalityLbEndpoints" where
  "setWeightToLen g = g\<lparr>LoadBalancingWeight := Some (of_nat (length (LbEndpoints g)))\<rparr>"

text \<open>The last lines of both builders: install the assignment in the cluster entry.\<close>

definition installLoadAssignment ::
  "string \<Rightarrow> LocalityLbEndpoints list \<Rightarrow> Time \<Rightarrow> EdsCluster \<Rightarrow> EdsCluster" where
  "installLoadAssignment clusterName locEps now edsCluster =
     (let c = edsCluster\<lparr>LoadAssignment :=
                Some \<lparr>ClusterName = clusterName, Endpoints = locEps\<rparr>\<rparr>
      in if 0 < length locEps \<and> NonEmptyTime c = 0 then c\<lparr>NonEmptyTime := now\<rparr> else c)"

text \<open>
  \<^verbatim>\<open>updateCluster\<close>, the full path. The result is the returned error, the push context,
  the cluster entry and the effects.
\<close>

definition updateCluster ::
  "ModelPkg \<Rightarrow> ServiceDiscovery \<Rightarrow> Time \<Rightarrow> PushContext \<Rightarrow> string \<Rightarrow> EdsCluster \<Rightarrow> Effects
     \<Rightarrow> error option \<times> PushContext \<times> EdsCluster \<times> Effects" where
  "updateCluster M InstancesByPort now push clusterName edsCluster eff =
     (case ParseSubsetKey M clusterName of (direction, subsetName, hostname, port) \<Rightarrow>
        if direction = TrafficDirectionInbound \<or> direction = TrafficDirectionOutbound
        then
          (let labels = SubsetToLabels push subsetName hostname;
               eff1 = eff\<lparr>InstancesByPort_calls :=
                        InstancesByPort_calls eff @ [(hostname, port, labels)]\<rparr>
           in case InstancesByPort hostname port labels of
                Inl err \<Rightarrow>
                  (Some err, push, edsCluster,
                   eff1\<lparr>totalXDSInternalErrors := totalXDSInternalErrors eff1 + 1\<rparr>)
              | Inr instances \<Rightarrow>
                  (let push1 = (if length instances = 0
                                then push\<lparr>ProxyStatusClusterNoInstances :=
                                       ProxyStatusClusterNoInstances push @ [clusterName]\<rparr>
                                else push);
                       eff2 = eff1\<lparr>edsInstances :=
                                (edsInstances eff1)(clusterName \<mapsto> length instances)\<rparr>
                   in case localityLbEndpointsFromInstances M instances
                             (totalXDSInternalErrors eff2) of
                        (locEps, errs) \<Rightarrow>
                          (None, push1,
                           installLoadAssignment clusterName (map setWeightToLen locEps) now
                             edsCluster,
                           eff2\<lparr>totalXDSInternalErrors := errs\<rparr>)))
        else (None, push, installLoadAssignment clusterName [] now edsCluster, eff))"

text \<open>
  The loop of \<^verbatim>\<open>updateClusterInc\<close> over the entries of one shard. It carries the count and
  the map, and returns the entries with the wire endpoint cached in those it selected.
  The count is a Go \<^verbatim>\<open>int\<close>, which no list is long enough to overflow.
\<close>

definition envoyEndpointOf :: "IstioEndpoint \<Rightarrow> LbEndpoint" where
  "envoyEndpointOf el =
     (case EnvoyEndpoint el of
        None \<Rightarrow> buildEnvoyLbEndpoint (UID el) (Family el) (Address el) (EndpointPort el)
                  (Network el)
      | Some lbEp \<Rightarrow> lbEp)"

fun entriesLoop ::
  "ModelPkg \<Rightarrow> string \<Rightarrow> Labels \<Rightarrow> IstioEndpoint list \<Rightarrow> nat \<times> localityEpMap
     \<Rightarrow> IstioEndpoint list \<times> nat \<times> localityEpMap" where
  "entriesLoop M svcPortName labels [] acc = ([], acc)"
| "entriesLoop M svcPortName labels (el # els) (cnt, m) =
     (if svcPortName \<noteq> ServicePortName el
      then (case entriesLoop M svcPortName labels els (cnt, m) of
              (els', acc) \<Rightarrow> (el # els', acc))
      else if \<not> HasSubsetOf labels (Labels el)
      then (case entriesLoop M svcPortName labels els (cnt, m) of
              (els', acc) \<Rightarrow> (el # els', acc))
      else
        (let locality = label (Labels el) (AZLabel M);
             lbEp = envoyEndpointOf el
         in case entriesLoop M svcPortName labels els
                   (cnt + 1, appendLbEndpoint locality lbEp m) of
              (els', acc) \<Rightarrow> (el\<lparr>EnvoyEndpoint := Some lbEp\<rparr> # els', acc)))"

fun shardsLoop ::
  "ModelPkg \<Rightarrow> string \<Rightarrow> Labels \<Rightarrow> (string \<times> EndpointShard) list \<Rightarrow> nat \<times> localityEpMap
     \<Rightarrow> (string \<times> EndpointShard) list \<times> nat \<times> localityEpMap" where
  "shardsLoop M svcPortName labels [] acc = ([], acc)"
| "shardsLoop M svcPortName labels ((k, es) # shards) acc =
     (case entriesLoop M svcPortName labels (Entries es) acc of
        (els', acc') \<Rightarrow>
          (case shardsLoop M svcPortName labels shards acc' of
             (shards', acc'') \<Rightarrow> ((k, es\<lparr>Entries := els'\<rparr>) # shards', acc'')))"

text \<open>
  \<^verbatim>\<open>updateClusterInc\<close>. The result is the returned error, the server (whose endpoints may
  have got their wire endpoint cached), the push context, the cluster entry and the
  effects.
\<close>

definition updateClusterInc ::
  "ModelPkg \<Rightarrow> ServiceDiscovery \<Rightarrow> Time \<Rightarrow> DiscoveryServer \<Rightarrow> PushContext \<Rightarrow> string
     \<Rightarrow> EdsCluster \<Rightarrow> Effects
     \<Rightarrow> error option \<times> DiscoveryServer \<times> PushContext \<times> EdsCluster \<times> Effects" where
  "updateClusterInc M InstancesByPort now s push clusterName edsCluster eff =
     (case ParseSubsetKey M clusterName of (direction, subsetName, hostname, port) \<Rightarrow>
        let labels = SubsetToLabels push subsetName hostname;
            full = (case updateCluster M InstancesByPort now push clusterName edsCluster eff of
                      (err, push', c', eff') \<Rightarrow> (err, s, push', c', eff'))
        in case ServicePort2Name push hostname of
             None \<Rightarrow> full
           | Some portMap \<Rightarrow>
               (case GetByPort portMap port of
                  None \<Rightarrow> full
                | Some svcPort \<Rightarrow>
                    (case EndpointShardsByService s hostname of
                       None \<Rightarrow> full
                     | Some se \<Rightarrow>
                         (case shardsLoop M (Port_Name svcPort) labels (Shards se) (0, []) of
                            (shards', cnt, m) \<Rightarrow>
                              (let locEps = map (\<lambda>(k, g). setWeightToLen g) m;
                                   push1 = (if cnt = 0
                                            then push\<lparr>ProxyStatusClusterNoInstances :=
                                                   ProxyStatusClusterNoInstances push
                                                     @ [clusterName]\<rparr>
                                            else push);
                                   eff1 = eff\<lparr>edsInstances :=
                                            (edsInstances eff)(clusterName \<mapsto> cnt)\<rparr>;
                                   s1 = s\<lparr>EndpointShardsByService :=
                                          (EndpointShardsByService s)
                                            (hostname \<mapsto> se\<lparr>Shards := shards'\<rparr>)\<rparr>
                               in (None, s1, push1,
                                   installLoadAssignment clusterName locEps now edsCluster,
                                   eff1))))))"

subsection \<open>Shard updates\<close>

text \<open>
  The loop of \<^verbatim>\<open>edsUpdate\<close> over the entries: it appends each entry to the new shard and
  raises \<^verbatim>\<open>requireFull\<close> for a service account the service does not have yet.
\<close>

fun edsUpdateLoop ::
  "string set \<Rightarrow> bool \<Rightarrow> IstioEndpoint list \<Rightarrow> IstioEndpoint list \<times> bool
     \<Rightarrow> IstioEndpoint list \<times> bool" where
  "edsUpdateLoop accounts internal [] acc = acc"
| "edsUpdateLoop accounts internal (e # es) (ceEntries, requireFull) =
     edsUpdateLoop accounts internal es
       (ceEntries @ [e],
        if ServiceAccount e \<noteq> [] \<and> ServiceAccount e \<notin> accounts \<and> \<not> internal
        then True else requireFull)"

definition edsUpdate ::
  "DiscoveryServer \<Rightarrow> string \<Rightarrow> string \<Rightarrow> IstioEndpoint list \<Rightarrow> bool \<Rightarrow> DiscoveryServer" where
  "edsUpdate s shard serviceName entries internal =
     (case (case EndpointShardsByService s serviceName of
              None \<Rightarrow> (\<lparr>Shards = [], ServiceAccounts = {}\<rparr>, \<not> internal)
            | Some ep \<Rightarrow> (ep, False)) of
        (ep, requireFull0) \<Rightarrow>
          (case edsUpdateLoop (ServiceAccounts ep) internal entries ([], requireFull0) of
             (ceEntries, requireFull) \<Rightarrow>
               (let ce = \<lparr>Shard = shard, Entries = ceEntries\<rparr>;
                    ep' = ep\<lparr>Shards := AList.update shard ce (Shards ep)\<rparr>
                in s\<lparr>EndpointShardsByService :=
                       (EndpointShardsByService s)(serviceName \<mapsto> ep'),
                     edsUpdates := insert serviceName (edsUpdates s),
                     ConfigUpdate_calls := ConfigUpdate_calls s @ [requireFull]\<rparr>)))"

text \<open>\<^verbatim>\<open>EDSUpdate\<close>: the server after the call and the returned error.\<close>

definition EDSUpdate ::
  "DiscoveryServer \<Rightarrow> string \<Rightarrow> string \<Rightarrow> IstioEndpoint list
     \<Rightarrow> DiscoveryServer \<times> error option" where
  "EDSUpdate s shard serviceName entries = (edsUpdate s shard serviceName entries False, None)"

subsection \<open>Cluster registry\<close>

text \<open>The global \<^verbatim>\<open>edsClusters\<close> is an argument and a result of the functions below.\<close>

type_synonym edsClusters = "(string \<times> EdsCluster) list"

definition getEdsCluster :: "edsClusters \<Rightarrow> string \<Rightarrow> EdsCluster option" where
  "getEdsCluster clusters clusterName = map_of clusters clusterName"

definition getOrAddEdsCluster ::
  "Time \<Rightarrow> edsClusters \<Rightarrow> string \<Rightarrow> edsClusters \<times> EdsCluster" where
  "getOrAddEdsCluster now clusters clusterName =
     (case map_of clusters clusterName of
        None \<Rightarrow>
          (let c = \<lparr>LoadAssignment = None, FirstUse = now, EdsClients = [], NonEmptyTime = 0\<rparr>
           in (AList.update clusterName c clusters, c))
      | Some c \<Rightarrow> (clusters, c))"

definition addEdsCon ::
  "Time \<Rightarrow> edsClusters \<Rightarrow> string \<Rightarrow> string \<Rightarrow> XdsConnection \<Rightarrow> edsClusters" where
  "addEdsCon now clusters clusterName node connection =
     (case getOrAddEdsCluster now clusters clusterName of
        (clusters', c) \<Rightarrow>
          AList.update clusterName
            (c\<lparr>EdsClients := AList.update node connection (EdsClients c)\<rparr>) clusters')"

definition removeEdsCon ::
  "edsClusters \<Rightarrow> string \<Rightarrow> string \<Rightarrow> XdsConnection \<Rightarrow> edsClusters" where
  "removeEdsCon clusters clusterName node connection =
     (case getEdsCluster clusters clusterName of
        None \<Rightarrow> clusters
      | Some c \<Rightarrow>
          (case map_of (EdsClients c) node of
             None \<Rightarrow> clusters
           | Some oldcon \<Rightarrow>
               if oldcon \<noteq> connection then clusters
               else
                 (let c' = c\<lparr>EdsClients := AList.delete node (EdsClients c)\<rparr>
                  in if length (EdsClients c') = 0
                     then AList.delete clusterName clusters
                     else AList.update clusterName c' clusters)))"

text \<open>
  \<^verbatim>\<open>edsClusters[clusterName].EdsClients[node]\<close>: the connection recorded for a node in a
  cluster entry, if the entry exists and has one.
\<close>

definition clientOf :: "edsClusters \<Rightarrow> string \<Rightarrow> string \<Rightarrow> XdsConnection option" where
  "clientOf clusters clusterName node =
     (case getEdsCluster clusters clusterName of
        None \<Rightarrow> None
      | Some c \<Rightarrow> map_of (EdsClients c) node)"

subsection \<open>Notions of the statements\<close>

text \<open>The raw weights of a list of locality groups, as numbers.\<close>

definition rawWeights :: "LocalityLbEndpoints list \<Rightarrow> nat list" where
  "rawWeights endpoints = map (\<lambda>e. unat (GetValue (LoadBalancingWeight e))) endpoints"

text \<open>The string field \<open>k\<close> of the \<^verbatim>\<open>istio\<close> metadata of a wire endpoint, if present.\<close>

definition istioField :: "LbEndpoint \<Rightarrow> string \<Rightarrow> string option" where
  "istioField ep k =
     (case Metadata ep of
        None \<Rightarrow> None
      | Some md \<Rightarrow> (case md ''istio'' of None \<Rightarrow> None | Some flds \<Rightarrow> flds k))"

text \<open>
  \<^verbatim>\<open>ServiceAccounts\<close> of a service (empty for a service the server does not know), and all
  the endpoints of its shards.
\<close>

definition serviceAccountsOf :: "DiscoveryServer \<Rightarrow> string \<Rightarrow> string set" where
  "serviceAccountsOf s serviceName =
     (case EndpointShardsByService s serviceName of
        None \<Rightarrow> {}
      | Some ep \<Rightarrow> ServiceAccounts ep)"

definition allEntries :: "EndpointShardsByService \<Rightarrow> IstioEndpoint list" where
  "allEntries se = concat (map (\<lambda>(k, es). Entries es) (Shards se))"

text \<open>
  The spec's "union over all shards' non-empty service-account fields" of a service.
\<close>

definition shardAccounts :: "DiscoveryServer \<Rightarrow> string \<Rightarrow> string set" where
  "shardAccounts s serviceName =
     (case EndpointShardsByService s serviceName of
        None \<Rightarrow> {}
      | Some ep \<Rightarrow> set (filter (\<lambda>a. a \<noteq> []) (map ServiceAccount (allEntries ep))))"

text \<open>
  Some entry carries a non-empty service account that the service does not have yet.
\<close>

definition newAccount :: "DiscoveryServer \<Rightarrow> string \<Rightarrow> IstioEndpoint list \<Rightarrow> bool" where
  "newAccount s serviceName entries \<longleftrightarrow>
     list_ex (\<lambda>e. ServiceAccount e \<noteq> [] \<and> ServiceAccount e \<notin> serviceAccountsOf s serviceName)
       entries"

text \<open>A sequence of shard updates: shard, service name, entries and \<^verbatim>\<open>internal\<close> of each.\<close>

type_synonym shardUpdate = "string \<times> string \<times> IstioEndpoint list \<times> bool"

definition edsUpdateAll :: "shardUpdate list \<Rightarrow> DiscoveryServer \<Rightarrow> DiscoveryServer" where
  "edsUpdateAll ups s =
     fold (\<lambda>(shard, serviceName, entries, internal) s'.
             edsUpdate s' shard serviceName entries internal) ups s"

text \<open>
  The two tests of the loop of \<^verbatim>\<open>updateClusterInc\<close>: an endpoint is selected when its
  service port name is the given one and the subset labels are a subset of its labels.
\<close>

definition selects :: "string \<Rightarrow> Labels \<Rightarrow> IstioEndpoint \<Rightarrow> bool" where
  "selects svcPortName labels el \<longleftrightarrow>
     svcPortName = ServicePortName el \<and> HasSubsetOf labels (Labels el)"

text \<open>
  The zone label of an endpoint, the zone of a locality group, and the spec's condition
  for the full path: the push context has no port list for the host of the cluster, or
  the list has no port of the cluster's number, or the server has no shards for the host.
\<close>

definition zoneOf :: "ModelPkg \<Rightarrow> IstioEndpoint \<Rightarrow> string" where
  "zoneOf M el = label (Labels el) (AZLabel M)"

definition groupZone :: "LocalityLbEndpoints \<Rightarrow> string" where
  "groupZone g = (case Locality g of None \<Rightarrow> [] | Some l \<Rightarrow> Zone l)"

definition fallsBack :: "ModelPkg \<Rightarrow> DiscoveryServer \<Rightarrow> PushContext \<Rightarrow> string \<Rightarrow> bool" where
  "fallsBack M s push clusterName =
     (case ParseSubsetKey M clusterName of (direction, subsetName, hostname, port) \<Rightarrow>
        (case ServicePort2Name push hostname of
           None \<Rightarrow> True
         | Some portMap \<Rightarrow> GetByPort portMap port = None) \<or>
        EndpointShardsByService s hostname = None)"

text \<open>
  For the proofs about the loop of \<^verbatim>\<open>updateClusterInc\<close>: the zone and wire endpoint of each
  selected endpoint, appending all of them to a map, the group of a zone, and the
  invariant that a map holds, for every zone met so far, the endpoints of that zone in the
  order met.
\<close>

definition selectedPairs ::
  "ModelPkg \<Rightarrow> string \<Rightarrow> Labels \<Rightarrow> IstioEndpoint list \<Rightarrow> (string \<times> LbEndpoint) list" where
  "selectedPairs M n l els =
     map (\<lambda>el. (zoneOf M el, envoyEndpointOf el)) (filter (selects n l) els)"

definition appendAll :: "(string \<times> LbEndpoint) list \<Rightarrow> localityEpMap \<Rightarrow> localityEpMap" where
  "appendAll ps m = fold (\<lambda>(z, e). appendLbEndpoint z e) ps m"

definition groupOf :: "string \<Rightarrow> LbEndpoint list \<Rightarrow> LocalityLbEndpoints" where
  "groupOf z eps = (newLocalityLbEndpoints z)\<lparr>LbEndpoints := eps\<rparr>"

definition grouped :: "localityEpMap \<Rightarrow> (string \<times> LbEndpoint) list \<Rightarrow> bool" where
  "grouped m ps \<longleftrightarrow>
     distinct (map fst m) \<and>
     (\<forall>z. map_of m z =
        (if z \<in> fst ` set ps then Some (groupOf z (map snd (filter (\<lambda>p. fst p = z) ps)))
         else None))"

subsection \<open>Example inputs\<close>

text \<open>
  The inputs of the examples below: a package \<^verbatim>\<open>model\<close> that parses every cluster name as
  \<^verbatim>\<open>outbound|80||svc.ns\<close> and accepts every address, an empty push context, a cluster entry
  that holds an assignment, and effects that have not begun.
\<close>

definition exampleModel :: ModelPkg where
  "exampleModel =
     \<lparr>ParseSubsetKey = (\<lambda>n. (TrafficDirectionOutbound, [], ''svc.ns'', 80)),
      ValidateNetworkEndpointAddress = (\<lambda>e. None),
      GetNetworkEndpointAddress =
        (\<lambda>e. Address_SocketAddress (NetworkEndpoint_Address e)
               (of_int (NetworkEndpoint_Port e))),
      GetAZ = (\<lambda>i. label (ServiceInstance_Labels i) ''istio-az''),
      AZLabel = ''istio-az''\<rparr>"

definition examplePush :: PushContext where
  "examplePush =
     \<lparr>ServicePort2Name = Map.empty, SubsetToLabels = (\<lambda>subsetName hostname. []),
      ProxyStatusClusterNoInstances = []\<rparr>"

definition exampleCluster :: EdsCluster where
  "exampleCluster =
     \<lparr>LoadAssignment = Some \<lparr>ClusterName = ''outbound|80||svc.ns'', Endpoints = []\<rparr>,
      FirstUse = 1, EdsClients = [(''node1'', 11), (''node2'', 12)], NonEmptyTime = 0\<rparr>"

definition exampleEffects :: Effects where
  "exampleEffects =
     \<lparr>totalXDSInternalErrors = 0, edsInstances = Map.empty, InstancesByPort_calls = []\<rparr>"

definition failingRegistry :: ServiceDiscovery where
  "failingRegistry hostname port labels = Inl (Error ''unavailable'')"

text \<open>
  Two endpoints of port \<^verbatim>\<open>http\<close>: A with version v1, no zone and account a; B with version
  v2, zone z1 and account b. A server that knows \<^verbatim>\<open>svc.ns\<close> with both in shard r1, and one
  that knows it with A only; a push context that maps port 80 of \<^verbatim>\<open>svc.ns\<close> to \<^verbatim>\<open>http\<close> and
  selects version v2; a locality group that has a weight only.
\<close>

definition endpointA :: IstioEndpoint where
  "endpointA =
     \<lparr>Family = AddressFamilyTCP, Address = ''10.0.0.1'', EndpointPort = 80,
      ServicePortName = ''http'', Labels = [(''version'', ''v1'')], UID = [],
      ServiceAccount = ''a'', Network = [], EnvoyEndpoint = None\<rparr>"

definition endpointB :: IstioEndpoint where
  "endpointB =
     \<lparr>Family = AddressFamilyTCP, Address = ''10.0.0.2'', EndpointPort = 80,
      ServicePortName = ''http'', Labels = [(''version'', ''v2''), (''istio-az'', ''z1'')],
      UID = [], ServiceAccount = ''b'', Network = [], EnvoyEndpoint = None\<rparr>"

definition exampleShards :: EndpointShardsByService where
  "exampleShards =
     \<lparr>Shards = [(''r1'', \<lparr>Shard = ''r1'', Entries = [endpointA, endpointB]\<rparr>)],
      ServiceAccounts = {''a'', ''b''}\<rparr>"

definition exampleServer :: DiscoveryServer where
  "exampleServer =
     \<lparr>EndpointShardsByService = [''svc.ns'' \<mapsto> exampleShards],
      edsUpdates = {}, ConfigUpdate_calls = []\<rparr>"

definition knownServer :: DiscoveryServer where
  "knownServer =
     \<lparr>EndpointShardsByService =
        [''svc.ns'' \<mapsto>
           \<lparr>Shards = [(''r1'', \<lparr>Shard = ''r1'', Entries = [endpointA]\<rparr>)],
            ServiceAccounts = {''a''}\<rparr>],
      edsUpdates = {}, ConfigUpdate_calls = []\<rparr>"

definition examplePort :: Port where
  "examplePort = \<lparr>Port_Name = ''http'', Port_Port = 80, Port_Protocol = ''HTTP''\<rparr>"

definition subsetPush :: PushContext where
  "subsetPush =
     \<lparr>ServicePort2Name = [''svc.ns'' \<mapsto> [examplePort]],
      SubsetToLabels = (\<lambda>subsetName hostname. [(''version'', ''v2'')]),
      ProxyStatusClusterNoInstances = []\<rparr>"

definition groupWithWeight :: "uint32 \<Rightarrow> LocalityLbEndpoints" where
  "groupWithWeight w = \<lparr>Locality = None, LbEndpoints = [], LoadBalancingWeight = Some w\<rparr>"

section \<open>Properties\<close>

subsection \<open>Association lists\<close>

lemma map_of_delete: "map_of (AList.delete k al) = (map_of al)(k := None)"
  by (rule ext) (simp add: delete_conv)

lemma delete_Nil_iff:
  "AList.delete k al = [] \<longleftrightarrow> (\<forall>n. n \<noteq> k \<longrightarrow> map_of al n = None)"
proof (induction al)
  case Nil
  show ?case by simp
next
  case (Cons p al)
  obtain a b where p: "p = (a, b)" by (cases p)
  show ?case
  proof (cases "a = k")
    case True
    with p Cons show ?thesis by simp
  next
    case False
    have "map_of (p # al) a = Some b" using p by simp
    with False p show ?thesis by (auto simp del: map_of.simps)
  qed
qed

subsection \<open>The float64 quotient and its ceiling\<close>

lemma Len_bound: "n < 2 ^ Len n"
proof (induction n rule: Len.induct)
  case (1 n)
  show ?case
  proof (cases "n = 0")
    case True
    then show ?thesis by (simp add: Len.simps)
  next
    case False
    with 1 have "n div 2 < 2 ^ Len (n div 2)" by simp
    then have "n < 2 * 2 ^ Len (n div 2)" by linarith
    with False show ?thesis by (subst Len.simps) simp
  qed
qed

lemma Len_le: "n < 2 ^ k \<Longrightarrow> Len n \<le> k"
proof (induction n arbitrary: k rule: Len.induct)
  case (1 n)
  show ?case
  proof (cases "n = 0")
    case True
    then show ?thesis by (simp add: Len.simps)
  next
    case False
    with 1(2) obtain j where k: "k = Suc j" by (cases k) auto
    with 1(2) have "n div 2 < 2 ^ j" by auto
    with 1(1) False have "Len (n div 2) \<le> j" by simp
    with False k show ?thesis by (subst Len.simps) simp
  qed
qed

lemma Len_lower: "0 < n \<Longrightarrow> 2 ^ (Len n - 1) \<le> n"
proof (induction n rule: Len.induct)
  case (1 n)
  show ?case
  proof (cases "n div 2 = 0")
    case True
    with 1(2) have "n = 1" by auto
    then show ?thesis by (simp add: Len.simps)
  next
    case False
    then have pos: "0 < n div 2" by simp
    with 1 have ih: "2 ^ (Len (n div 2) - 1) \<le> n div 2" by simp
    have "0 < Len (n div 2)" using pos by (subst Len.simps) simp
    then have "Len n - 1 = Suc (Len (n div 2) - 1)"
      using 1(2) by (subst Len.simps) simp
    then have "(2::nat) ^ (Len n - 1) = 2 * 2 ^ (Len (n div 2) - 1)" by simp
    also have "\<dots> \<le> 2 * (n div 2)" using ih by simp
    also have "\<dots> \<le> n" by simp
    finally show ?thesis .
  qed
qed

lemma round_half_even_between:
  assumes d: "0 < d" and lo: "a * d \<le> n" and hi: "n < b * d"
  shows "a \<le> round_half_even n d" and "round_half_even n d \<le> b"
proof -
  have q1: "a \<le> n div d" using lo d by (simp add: less_eq_div_iff_mult_less_eq)
  have q2: "n div d < b" using hi d by (simp add: div_less_iff_less_mult)
  have "n div d \<le> round_half_even n d" "round_half_even n d \<le> n div d + 1"
    by (simp_all add: round_half_even_def Let_def)
  with q1 q2 show "a \<le> round_half_even n d" "round_half_even n d \<le> b" by linarith+
qed

text \<open>
  The scale of \<^const>\<open>float64_div\<close> is the one of a float64: the significand has 53 bits
  (or is \<open>2\<^sup>5\<^sup>3\<close>, the first number of the next binade).
\<close>

lemma float64_div_normal:
  assumes x0: "0 < x" and y0: "0 < y" and x: "x < 2 ^ 32"
  shows "2 ^ 52 \<le> fst (float64_div x y) \<and> fst (float64_div x y) \<le> 2 ^ 53"
proof -
  define s0 where "s0 = 52 + Len y - Len x"
  have lx: "Len x \<le> 32" using x by (rule Len_le)
  have ly: "0 < Len y" using y0 by (subst Len.simps) simp
  have e: "Len x + s0 = 52 + Len y" using lx by (simp add: s0_def)
  have "x * 2 ^ s0 < 2 ^ Len x * 2 ^ s0" using Len_bound [of x] by simp
  also have "\<dots> = 2 ^ (52 + Len y)" unfolding e [symmetric] by (simp only: power_add)
  also have "\<dots> = 2 ^ 53 * 2 ^ (Len y - 1)"
  proof -
    have "52 + Len y = 53 + (Len y - 1)" using ly by simp
    then show ?thesis by (simp only: power_add)
  qed
  also have "\<dots> \<le> 2 ^ 53 * y" using Len_lower [OF y0] by simp
  finally have up0: "x * 2 ^ s0 < 2 ^ 53 * y" .
  have "2 ^ 52 * y < 2 ^ 52 * 2 ^ Len y" using Len_bound [of y] by simp
  also have "\<dots> = 2 ^ (Len x + s0)" unfolding e by (simp only: power_add)
  also have "\<dots> = 2 * (2 ^ (Len x - 1) * 2 ^ s0)"
  proof -
    have "0 < Len x" using x0 by (subst Len.simps) simp
    then obtain k where k: "Len x = Suc k" by (cases "Len x") auto
    show ?thesis by (simp add: k power_add)
  qed
  also have "\<dots> \<le> 2 * (x * 2 ^ s0)" using Len_lower [OF x0] by simp
  finally have lo1: "2 ^ 52 * y < x * 2 ^ (s0 + 1)" by simp
  show ?thesis
  proof (cases "2 ^ 52 * y \<le> x * 2 ^ s0")
    case True
    then have f: "float64_div x y = (round_half_even (x * 2 ^ s0) y, s0)"
      using x0 by (simp add: float64_div_def Let_def s0_def)
    from round_half_even_between [OF y0, of "2 ^ 52" "x * 2 ^ s0" "2 ^ 53"] True up0
    show ?thesis by (simp add: f)
  next
    case False
    then have f: "float64_div x y = (round_half_even (x * 2 ^ (s0 + 1)) y, s0 + 1)"
      using x0 by (simp add: float64_div_def Let_def s0_def)
    from False have "x * 2 ^ (s0 + 1) < 2 ^ 53 * y" by simp
    with round_half_even_between [OF y0, of "2 ^ 52" "x * 2 ^ (s0 + 1)" "2 ^ 53"] lo1
    show ?thesis by (simp add: f)
  qed
qed

lemma round_half_even_lower:
  assumes "0 < d"
  shows "2 * n \<le> 2 * (round_half_even n d * d) + d"
proof -
  define q where "q = n div d"
  define r where "r = n mod d"
  have e: "n = q * d + r" by (simp add: q_def r_def)
  have rd: "r < d" using assms by (simp add: r_def)
  show ?thesis
    unfolding round_half_even_def Let_def q_def[symmetric] r_def[symmetric]
    using e rd by (auto simp: algebra_simps)
qed

lemma round_half_even_upper:
  assumes "0 < d"
  shows "2 * (round_half_even n d * d) \<le> 2 * n + d"
proof -
  define q where "q = n div d"
  define r where "r = n mod d"
  have e: "n = q * d + r" by (simp add: q_def r_def)
  have rd: "r < d" using assms by (simp add: r_def)
  show ?thesis
    unfolding round_half_even_def Let_def q_def[symmetric] r_def[symmetric]
    using e rd by (auto simp: algebra_simps)
qed

lemma round_half_even_exact: "0 < d \<Longrightarrow> round_half_even (q * d) d = q"
  by (simp add: round_half_even_def)

text \<open>
  Rounding the scaled quotient to the nearest significand does not move it across an
  integer, once the scale \<open>P\<close> exceeds the divisor: the ceiling of the rounded quotient is
  the ceiling of the exact one.
\<close>

lemma ceil_rounded_quotient:
  fixes x y P :: nat
  assumes y: "0 < y" and P: "y < P"
  shows "(round_half_even (x * P) y + P - 1) div P = (x + y - 1) div y"
proof -
  define k where "k = x div y"
  define r where "r = x mod y"
  define m where "m = round_half_even (x * P) y"
  have x: "x = k * y + r" by (simp add: k_def r_def)
  have ry: "r < y" using y by (simp add: r_def)
  show ?thesis
  proof (cases "r = 0")
    case True
    then have e: "x * P = (k * P) * y" using x by (simp add: algebra_simps)
    have "m = k * P" unfolding m_def e by (rule round_half_even_exact [OF y])
    then have "(m + P - 1) div P = k" using P y
      by (intro div_nat_eqI) (simp_all add: algebra_simps)
    moreover have "(x + y - 1) div y = k" using True x y
      by (intro div_nat_eqI) (simp_all add: algebra_simps)
    ultimately show ?thesis by (simp add: m_def)
  next
    case False
    have N: "x * P = k * P * y + r * P" using x by (simp add: algebra_simps)
    have rP1: "P \<le> r * P" using False by simp
    have "r + 1 \<le> y" using ry by simp
    then have "(r + 1) * P \<le> y * P" by (rule mult_le_mono1)
    then have rP2: "r * P + P \<le> y * P" by (simp add: algebra_simps)
    have lo: "2 * (x * P) \<le> 2 * (m * y) + y"
      unfolding m_def by (rule round_half_even_lower [OF y])
    have hi: "2 * (m * y) \<le> 2 * (x * P) + y"
      unfolding m_def by (rule round_half_even_upper [OF y])
    have m_gt: "k * P < m"
    proof (rule ccontr)
      assume "\<not> k * P < m"
      then have "m \<le> k * P" by simp
      then have "m * y \<le> k * P * y" by (rule mult_le_mono1)
      with lo N rP1 P show False by linarith
    qed
    have m_le: "m \<le> (k + 1) * P"
    proof (rule ccontr)
      assume "\<not> m \<le> (k + 1) * P"
      then have "(k + 1) * P + 1 \<le> m" by simp
      then have "((k + 1) * P + 1) * y \<le> m * y" by (rule mult_le_mono1)
      then have "k * P * y + y * P + y \<le> m * y" by (simp add: algebra_simps)
      with hi N rP2 P show False by linarith
    qed
    have "(m + P - 1) div P = k + 1"
      using m_gt m_le by (intro div_nat_eqI) (simp_all add: algebra_simps)
    moreover have "(x + y - 1) div y = k + 1"
      using False ry x by (intro div_nat_eqI) (simp_all add: algebra_simps)
    ultimately show ?thesis by (simp add: m_def)
  qed
qed

lemma float64_scale_bound:
  assumes x: "x < 2 ^ 32"
  shows "y < 2 ^ (52 + Len y - Len x)"
proof -
  have "Len x \<le> 32" using x by (rule Len_le)
  then have "Len y \<le> 52 + Len y - Len x" by simp
  then have "(2::nat) ^ Len y \<le> 2 ^ (52 + Len y - Len x)" by (rule power_increasing) simp
  with Len_bound [of y] show ?thesis by linarith
qed

text \<open>
  For \<^verbatim>\<open>uint32\<close> operands the float64 computation \<^verbatim>\<open>uint32(math.Ceil(float64(x) / float64(y)))\<close>
  is the exact ceiling of the quotient.
\<close>

lemma Ceil_float64_div:
  assumes y: "0 < y" and x: "x < 2 ^ 32"
  shows "Ceil_uint32 (float64_div x y) = of_nat ((x + y - 1) div y)"
proof (cases "x = 0")
  case True
  with y show ?thesis by (simp add: float64_div_def Ceil_uint32_def)
next
  case False
  define s0 where "s0 = 52 + Len y - Len x"
  define s where "s = (if 2 ^ 52 * y \<le> x * 2 ^ s0 then s0 else s0 + 1)"
  have "y < 2 ^ s0" unfolding s0_def using x by (rule float64_scale_bound)
  moreover have "(2::nat) ^ s0 \<le> 2 ^ s" by (rule power_increasing) (simp_all add: s_def)
  ultimately have P: "y < 2 ^ s" by linarith
  have "float64_div x y = (round_half_even (x * 2 ^ s) y, s)"
    using False by (simp add: float64_div_def Let_def s_def s0_def)
  then show ?thesis
    using ceil_rounded_quotient [OF y P, of x] by (simp add: Ceil_uint32_def)
qed

subsection \<open>Weight normalizer\<close>

lemma fold_weights:
  "fold (\<lambda>e t. t + GetValue (LoadBalancingWeight e)) endpoints a =
     a + of_nat (sum_list (rawWeights endpoints))"
  by (induction endpoints arbitrary: a) (simp_all add: rawWeights_def algebra_simps)

lemma totalLbEndpointsNum_sum:
  "unat (totalLbEndpointsNum endpoints) = sum_list (rawWeights endpoints) mod 2 ^ 32"
  by (simp add: totalLbEndpointsNum_def fold_weights unat_of_nat)

lemma member_le_sum_list: "(x::nat) \<in> set xs \<Longrightarrow> x \<le> sum_list xs"
  by (induction xs) auto

lemma normalizeWeight_exact:
  fixes e :: LocalityLbEndpoints
  assumes T: "unat t = T" and T0: "0 < T" and small: "unat (GetValue (LoadBalancingWeight e)) * 128 < 2 ^ 32"
  shows "unat (GetValue (LoadBalancingWeight (normalizeWeight t e))) =
           (unat (GetValue (LoadBalancingWeight e)) * 128 + T - 1) div T"
proof -
  define r where "r = unat (GetValue (LoadBalancingWeight e))"
  have m: "unat (GetValue (LoadBalancingWeight e) * maxLoadBalancingWeight) = r * 128"
    using small by (simp add: maxLoadBalancingWeight_def unat_word_ariths r_def)
  have lt: "r * 128 < 2 ^ 32" using small by (simp add: r_def)
  have "(r * 128 + T - 1) div T \<le> r * 128 + T - 1" by (rule div_le_dividend)
  have c: "(r * 128 + T - 1) div T \<le> r * 128"
  proof (cases "r = 0")
    case True with T0 show ?thesis by simp
  next
    case False
    have "(r * 128 + T - 1) div T \<le> (r * 128 * T) div T"
    proof (rule div_le_mono)
      have "r * 128 + T \<le> r * 128 * T + 1"
      proof -
        have "(r * 128 - 1) * (T - 1) + (r * 128 + T) = r * 128 * T + 1"
          using False T0 by (cases T; cases "r * 128") (simp_all add: algebra_simps)
        then show ?thesis by linarith
      qed
      then show "r * 128 + T - 1 \<le> r * 128 * T" by linarith
    qed
    with T0 show ?thesis by simp
  qed
  have "Ceil_uint32 (float64_div (r * 128) T) = of_nat ((r * 128 + T - 1) div T)"
    using T0 lt by (rule Ceil_float64_div)
  moreover have "unat (of_nat ((r * 128 + T - 1) div T) :: uint32) = (r * 128 + T - 1) div T"
    using c lt by (simp add: unat_of_nat)
  ultimately show ?thesis
    using m T by (simp add: normalizeWeight_def GetValue_def r_def)
qed

text \<open>
  As long as nothing overflows the normalizer does what its comment says: with a total
  weight \<open>T\<close> of 0 the list is returned as it is, and with \<open>0 < T < 2\<^sup>2\<^sup>5\<close> every weight
  becomes \<open>\<lceil>raw \<cdot> 128 / T\<rceil>\<close>, which is at most 128 and at least 1 for a raw weight of at
  least 1.
\<close>

lemma normalizeLoadBalancingWeight_zero_sum:
  assumes "sum_list (rawWeights endpoints) = 0"
  shows "normalizeLoadBalancingWeight endpoints = endpoints"
proof -
  have "unat (totalLbEndpointsNum endpoints) = sum_list (rawWeights endpoints) mod 2 ^ 32"
    by (rule totalLbEndpointsNum_sum)
  also have "\<dots> = 0" unfolding assms by simp
  finally have "unat (totalLbEndpointsNum endpoints) = 0" .
  then have "totalLbEndpointsNum endpoints = 0" by (simp add: unat_eq_0)
  then show ?thesis by (simp add: normalizeLoadBalancingWeight_def)
qed

lemma normalizeLoadBalancingWeight_exact:
  assumes pos: "0 < sum_list (rawWeights endpoints)"
    and small: "sum_list (rawWeights endpoints) < 2 ^ 25"
  shows "rawWeights (normalizeLoadBalancingWeight endpoints) =
           map (\<lambda>r. (r * 128 + sum_list (rawWeights endpoints) - 1)
                       div sum_list (rawWeights endpoints))
             (rawWeights endpoints)"
proof -
  define T where "T = sum_list (rawWeights endpoints)"
  have T0: "0 < T" and T25: "T < 2 ^ 25" using pos small by (simp_all only: T_def)
  have "unat (totalLbEndpointsNum endpoints) = T mod 2 ^ 32"
    unfolding T_def by (rule totalLbEndpointsNum_sum)
  with T25 have T: "unat (totalLbEndpointsNum endpoints) = T" by simp
  have nz: "totalLbEndpointsNum endpoints \<noteq> 0"
  proof
    assume "totalLbEndpointsNum endpoints = 0"
    then have "unat (totalLbEndpointsNum endpoints) = 0" by simp
    with T T0 show False by simp
  qed
  have each: "unat (GetValue (LoadBalancingWeight
                 (normalizeWeight (totalLbEndpointsNum endpoints) e))) =
              (unat (GetValue (LoadBalancingWeight e)) * 128 + T - 1) div T"
    if "e \<in> set endpoints" for e
  proof -
    have "unat (GetValue (LoadBalancingWeight e)) \<in> set (rawWeights endpoints)"
      using that by (simp add: rawWeights_def)
    then have "unat (GetValue (LoadBalancingWeight e)) \<le> T"
      unfolding T_def by (rule member_le_sum_list)
    with T25 have "unat (GetValue (LoadBalancingWeight e)) * 128 < 2 ^ 32"
      by simp
    with T T0 show ?thesis by (intro normalizeWeight_exact)
  qed
  have "rawWeights (normalizeLoadBalancingWeight endpoints) =
          map (\<lambda>e. unat (GetValue (LoadBalancingWeight
                 (normalizeWeight (totalLbEndpointsNum endpoints) e)))) endpoints"
    using nz by (simp add: normalizeLoadBalancingWeight_def rawWeights_def comp_def)
  also have "\<dots> = map (\<lambda>e. (unat (GetValue (LoadBalancingWeight e)) * 128 + T - 1) div T)
                      endpoints"
    using each by (intro map_cong) simp_all
  finally show ?thesis unfolding T_def [symmetric] by (simp add: rawWeights_def comp_def)
qed

lemma ceil_share_bounds:
  fixes r T :: nat
  assumes "r \<le> T" and "0 < T"
  shows "(r * 128 + T - 1) div T \<le> 128" and "1 \<le> r \<Longrightarrow> 1 \<le> (r * 128 + T - 1) div T"
proof -
  have "r * 128 + T - 1 < 129 * T" using assms by simp
  then have "(r * 128 + T - 1) div T < 129" using assms(2)
    by (simp add: less_mult_imp_div_less)
  then show "(r * 128 + T - 1) div T \<le> 128" by simp
next
  assume "1 \<le> r"
  then have "T \<le> r * 128 + T - 1" by simp
  then have "T div T \<le> (r * 128 + T - 1) div T" by (rule div_le_mono)
  with assms(2) show "1 \<le> (r * 128 + T - 1) div T" by simp
qed

lemma sum_list_le_length: "(\<And>x. x \<in> set xs \<Longrightarrow> x \<le> (c::nat)) \<Longrightarrow> sum_list xs \<le> c * length xs"
  by (induction xs) (auto simp: add_mono)

lemma normalizeLoadBalancingWeight_range:
  assumes pos: "0 < sum_list (rawWeights endpoints)"
    and small: "sum_list (rawWeights endpoints) < 2 ^ 25"
  shows "\<forall>i < length endpoints.
           rawWeights (normalizeLoadBalancingWeight endpoints) ! i \<le> 128 \<and>
           (1 \<le> rawWeights endpoints ! i \<longrightarrow>
              1 \<le> rawWeights (normalizeLoadBalancingWeight endpoints) ! i)"
    and "sum_list (rawWeights (normalizeLoadBalancingWeight endpoints)) \<le> 128 * length endpoints"
proof -
  define T where "T = sum_list (rawWeights endpoints)"
  have out: "rawWeights (normalizeLoadBalancingWeight endpoints) =
               map (\<lambda>r. (r * 128 + T - 1) div T) (rawWeights endpoints)"
    unfolding T_def by (rule normalizeLoadBalancingWeight_exact [OF pos small])
  have le: "r \<le> T" if "r \<in> set (rawWeights endpoints)" for r
    using that unfolding T_def by (rule member_le_sum_list)
  have T0: "0 < T" using pos by (simp add: T_def)
  have len: "length (rawWeights endpoints) = length endpoints" by (simp add: rawWeights_def)
  show "\<forall>i < length endpoints.
           rawWeights (normalizeLoadBalancingWeight endpoints) ! i \<le> 128 \<and>
           (1 \<le> rawWeights endpoints ! i \<longrightarrow>
              1 \<le> rawWeights (normalizeLoadBalancingWeight endpoints) ! i)"
  proof (intro allI impI)
    fix i assume i: "i < length endpoints"
    then have "rawWeights endpoints ! i \<in> set (rawWeights endpoints)" by (simp add: len)
    then have "rawWeights endpoints ! i \<le> T" by (rule le)
    with T0 i ceil_share_bounds [of "rawWeights endpoints ! i" T]
    show "rawWeights (normalizeLoadBalancingWeight endpoints) ! i \<le> 128 \<and>
           (1 \<le> rawWeights endpoints ! i \<longrightarrow>
              1 \<le> rawWeights (normalizeLoadBalancingWeight endpoints) ! i)"
      by (simp add: out len)
  qed
  have "x \<le> 128" if "x \<in> set (map (\<lambda>r. (r * 128 + T - 1) div T) (rawWeights endpoints))" for x
  proof -
    from that obtain r where r: "r \<in> set (rawWeights endpoints)"
      and x: "x = (r * 128 + T - 1) div T" by auto
    from le [OF r] T0 show ?thesis unfolding x by (rule ceil_share_bounds(1))
  qed
  then have "sum_list (map (\<lambda>r. (r * 128 + T - 1) div T) (rawWeights endpoints)) \<le>
          128 * length (map (\<lambda>r. (r * 128 + T - 1) div T) (rawWeights endpoints))"
    by (rule sum_list_le_length)
  then show "sum_list (rawWeights (normalizeLoadBalancingWeight endpoints)) \<le> 128 * length endpoints"
    by (simp add: out len)
qed

lemma normalizeLoadBalancingWeight_three_way:
  "normalizeLoadBalancingWeight [groupWithWeight 2, groupWithWeight 1, groupWithWeight 1] =
     [groupWithWeight 64, groupWithWeight 32, groupWithWeight 32]"
  by (simp add: normalizeLoadBalancingWeight_def totalLbEndpointsNum_def normalizeWeight_def
      GetValue_def groupWithWeight_def maxLoadBalancingWeight_def float64_div_def
      Ceil_uint32_def Len.simps round_half_even_def Let_def)

text \<open>
  C1. The product \<^verbatim>\<open>raw * 128\<close> and the sum of the weights are \<^verbatim>\<open>uint32\<close> values and wrap
  around. A single group of raw weight \<open>2\<^sup>2\<^sup>5\<close> has \<open>T = 2\<^sup>2\<^sup>5 \<noteq> 0\<close> and gets the weight 0, where
  \<open>\<lceil>raw \<cdot> 128 / T\<rceil> = 128\<close>; two groups of raw weight \<open>2\<^sup>3\<^sup>1\<close> have the sum \<open>2\<^sup>3\<^sup>2\<close>, which the
  code reads as 0, and are returned as they are, where \<open>\<lceil>raw \<cdot> 128 / T\<rceil> = 64\<close>.
\<close>

theorem normalizeLoadBalancingWeight_uint32_overflow:
  "normalizeLoadBalancingWeight [groupWithWeight 33554432] = [groupWithWeight 0] \<and>
   normalizeLoadBalancingWeight [groupWithWeight 2147483648, groupWithWeight 2147483648] =
     [groupWithWeight 2147483648, groupWithWeight 2147483648]"
  by (simp add: normalizeLoadBalancingWeight_def totalLbEndpointsNum_def normalizeWeight_def
      GetValue_def groupWithWeight_def maxLoadBalancingWeight_def float64_div_def
      Ceil_uint32_def)

text \<open>
  C5. With the same wrap-around the output leaves the range: of the raw weights
  \<open>[2\<^sup>2\<^sup>6, 1]\<close> the first becomes 0, and the raw weights \<open>[3, 2\<^sup>3\<^sup>2 - 2]\<close>, whose sum the code reads
  as 1, become \<open>[384, 2\<^sup>3\<^sup>2 - 256]\<close>, above 128 each and above \<open>128 \<cdot> 2\<close> together.
\<close>

theorem normalizeLoadBalancingWeight_leaves_range:
  "rawWeights (normalizeLoadBalancingWeight [groupWithWeight 67108864, groupWithWeight 1]) =
     [0, 1] \<and>
   rawWeights (normalizeLoadBalancingWeight [groupWithWeight 3, groupWithWeight 4294967294]) =
     [384, 4294967040]"
  by (simp add: normalizeLoadBalancingWeight_def totalLbEndpointsNum_def normalizeWeight_def
      GetValue_def groupWithWeight_def maxLoadBalancingWeight_def float64_div_def
      Ceil_uint32_def Len.simps round_half_even_def Let_def rawWeights_def)

subsection \<open>Wire endpoints\<close>

text \<open>
  The full path sets the field \<^verbatim>\<open>uid\<close> exactly for a non-empty UID and the field \<^verbatim>\<open>network\<close>
  exactly for a non-empty network, and no metadata when both are empty.
\<close>

lemma networkEndpointToEnvoyEndpoint_metadata:
  assumes "networkEndpointToEnvoyEndpoint M e = Inr ep"
  shows "istioField ep ''uid'' =
           (if NetworkEndpoint_UID e = [] then None else Some (NetworkEndpoint_UID e))"
    and "istioField ep ''network'' =
           (if NetworkEndpoint_Network e = [] then None else Some (NetworkEndpoint_Network e))"
    and "Metadata ep = None \<longleftrightarrow> NetworkEndpoint_UID e = [] \<and> NetworkEndpoint_Network e = []"
  using assms
  by (auto simp: networkEndpointToEnvoyEndpoint_def Let_def setIstioField_def istioField_def
      istioMetadata_def split: option.splits if_splits)

text \<open>
  The incremental path sets both fields or none, by the UID alone.
\<close>

lemma buildEnvoyLbEndpoint_metadata:
  "Metadata (buildEnvoyLbEndpoint uid fam address port network) =
     (if uid = [] then None
      else Some (istioMetadata [''uid'' \<mapsto> uid, ''network'' \<mapsto> network]))"
  by (simp add: buildEnvoyLbEndpoint_def Let_def)

text \<open>
  C3. \<^verbatim>\<open>buildEnvoyLbEndpoint\<close> gives an endpoint with a network and no UID no metadata at
  all, and an endpoint with a UID and no network a \<^verbatim>\<open>network\<close> field holding the empty
  string.
\<close>

theorem buildEnvoyLbEndpoint_metadata_by_uid_only:
  "Metadata (buildEnvoyLbEndpoint [] AddressFamilyTCP ''10.0.0.1'' 80 ''network1'') = None \<and>
   istioField (buildEnvoyLbEndpoint ''uid1'' AddressFamilyTCP ''10.0.0.1'' 80 []) ''network'' =
     Some []"
  by (simp add: buildEnvoyLbEndpoint_def istioField_def istioMetadata_def)

subsection \<open>Cluster registry\<close>

text \<open>
  C8. \<^verbatim>\<open>removeEdsCon\<close> deletes the connection recorded for a node only when the handle it
  is given is the recorded one: every other recorded connection, of any cluster and node,
  stays, and with a stale handle the registry is unchanged. When the removal leaves the
  entry without clients, the entry leaves the registry and \<^verbatim>\<open>getEdsCluster\<close> returns nil.
\<close>

theorem removeEdsCon_only_own_connection:
  "clientOf (removeEdsCon clusters clusterName node connection) cn n =
     (if cn = clusterName \<and> n = node \<and> clientOf clusters clusterName node = Some connection
      then None else clientOf clusters cn n) \<and>
   (clientOf clusters clusterName node \<noteq> Some connection \<longrightarrow>
      removeEdsCon clusters clusterName node connection = clusters) \<and>
   (clientOf clusters clusterName node = Some connection \<and>
    (\<forall>n'. n' \<noteq> node \<longrightarrow> clientOf clusters clusterName n' = None) \<longrightarrow>
      getEdsCluster (removeEdsCon clusters clusterName node connection) clusterName = None)"
proof (intro conjI impI)
  show "clientOf (removeEdsCon clusters clusterName node connection) cn n =
     (if cn = clusterName \<and> n = node \<and> clientOf clusters clusterName node = Some connection
      then None else clientOf clusters cn n)"
    by (auto simp: clientOf_def removeEdsCon_def getEdsCluster_def Let_def map_of_delete
        update_conv' delete_Nil_iff split: option.splits)
next
  assume "clientOf clusters clusterName node \<noteq> Some connection"
  then show "removeEdsCon clusters clusterName node connection = clusters"
    by (auto simp: clientOf_def removeEdsCon_def getEdsCluster_def split: option.splits)
next
  assume a: "clientOf clusters clusterName node = Some connection \<and>
    (\<forall>n'. n' \<noteq> node \<longrightarrow> clientOf clusters clusterName n' = None)"
  then obtain c where c: "map_of clusters clusterName = Some c"
    "map_of (EdsClients c) node = Some connection"
    by (auto simp: clientOf_def getEdsCluster_def split: option.splits)
  with a have "\<forall>n'. n' \<noteq> node \<longrightarrow> map_of (EdsClients c) n' = None"
    by (simp add: clientOf_def getEdsCluster_def)
  then have "AList.delete node (EdsClients c) = []" by (simp add: delete_Nil_iff)
  with c show "getEdsCluster (removeEdsCon clusters clusterName node connection) clusterName = None"
    by (simp add: removeEdsCon_def getEdsCluster_def map_of_delete)
qed

theorem removeEdsCon_only_own_connection_witness:
  "clientOf (removeEdsCon [(''C'', exampleCluster)] ''C'' ''node1'' 99) ''C'' ''node1'' = Some 11 \<and>
   removeEdsCon [(''C'', exampleCluster)] ''C'' ''node1'' 99 = [(''C'', exampleCluster)] \<and>
   clientOf (removeEdsCon [(''C'', exampleCluster)] ''C'' ''node1'' 11) ''C'' ''node1'' = None \<and>
   clientOf (removeEdsCon [(''C'', exampleCluster)] ''C'' ''node1'' 11) ''C'' ''node2'' = Some 12 \<and>
   getEdsCluster
     (removeEdsCon (removeEdsCon [(''C'', exampleCluster)] ''C'' ''node1'' 11) ''C'' ''node2'' 12)
     ''C'' = None"
proof -
  let ?cs = "[(''C'', exampleCluster)]"
  let ?cs1 = "removeEdsCon ?cs ''C'' ''node1'' 11"
  have c1: "clientOf ?cs ''C'' ''node1'' = Some 11"
    by (simp add: clientOf_def getEdsCluster_def exampleCluster_def)
  have c2: "clientOf ?cs ''C'' ''node2'' = Some 12"
    by (simp add: clientOf_def getEdsCluster_def exampleCluster_def)
  have s1: "clientOf ?cs1 ''C'' ''node2'' = Some 12"
    using removeEdsCon_only_own_connection [of ?cs "''C''" "''node1''" 11 "''C''" "''node2''"] c2
    by simp
  have s2: "\<forall>n'. n' \<noteq> ''node2'' \<longrightarrow> clientOf ?cs1 ''C'' n' = None"
  proof (intro allI impI)
    fix n' :: string assume "n' \<noteq> ''node2''"
    then show "clientOf ?cs1 ''C'' n' = None"
      using removeEdsCon_only_own_connection [of ?cs "''C''" "''node1''" 11 "''C''" n'] c1
      by (simp add: clientOf_def getEdsCluster_def exampleCluster_def)
  qed
  show ?thesis
    using removeEdsCon_only_own_connection [of ?cs "''C''" "''node1''" 99 "''C''" "''node1''"]
      removeEdsCon_only_own_connection [of ?cs "''C''" "''node1''" 11 "''C''" "''node1''"]
      removeEdsCon_only_own_connection [of ?cs1 "''C''" "''node2''" 12 "''C''" "''node2''"]
      c1 s1 s2
    by simp
qed

subsection \<open>The full path\<close>

lemma installLoadAssignment_LoadAssignment:
  "LoadAssignment (installLoadAssignment clusterName locEps now c) =
     Some \<lparr>ClusterName = clusterName, Endpoints = locEps\<rparr>"
  by (simp add: installLoadAssignment_def Let_def)

text \<open>
  C9. When the registry query \<^verbatim>\<open>InstancesByPort\<close> of \<^verbatim>\<open>updateCluster\<close> returns an error, the
  build returns that error and leaves the cluster entry as it was. Whenever the build
  returns an error the entry is unchanged, and when it returns nil the entry holds a new
  assignment for the cluster.
\<close>

theorem updateCluster_error_keeps_assignment:
  assumes run: "updateCluster M InstancesByPort now push clusterName edsCluster eff =
                  (r, push', c', eff')"
    and key: "ParseSubsetKey M clusterName = (direction, subsetName, hostname, port)"
  shows "((direction = TrafficDirectionInbound \<or> direction = TrafficDirectionOutbound) \<and>
          InstancesByPort hostname port (SubsetToLabels push subsetName hostname) = Inl err
          \<longrightarrow> r = Some err \<and> c' = edsCluster) \<and>
         (r \<noteq> None \<longrightarrow> c' = edsCluster) \<and>
         (r = None \<longrightarrow>
           (\<exists>locEps. LoadAssignment c' =
              Some \<lparr>ClusterName = clusterName, Endpoints = locEps\<rparr>))"
  using run key
  by (auto simp: updateCluster_def Let_def installLoadAssignment_LoadAssignment
      split: if_splits sum.splits prod.splits)

theorem updateCluster_error_keeps_assignment_witness:
  "ParseSubsetKey exampleModel ''outbound|80||svc.ns'' =
     (TrafficDirectionOutbound, [], ''svc.ns'', 80) \<and>
   failingRegistry ''svc.ns'' 80 (SubsetToLabels examplePush [] ''svc.ns'') =
     Inl (Error ''unavailable'') \<and>
   fst (updateCluster exampleModel failingRegistry 7 examplePush ''outbound|80||svc.ns''
          exampleCluster exampleEffects) = Some (Error ''unavailable'') \<and>
   fst (snd (snd (updateCluster exampleModel failingRegistry 7 examplePush
          ''outbound|80||svc.ns'' exampleCluster exampleEffects))) = exampleCluster"
proof -
  obtain r push' c' eff' where
    run: "updateCluster exampleModel failingRegistry 7 examplePush ''outbound|80||svc.ns''
            exampleCluster exampleEffects = (r, push', c', eff')"
    by (rule prod_cases4)
  have key: "ParseSubsetKey exampleModel ''outbound|80||svc.ns'' =
     (TrafficDirectionOutbound, [], ''svc.ns'', 80)"
    by (simp add: exampleModel_def)
  have q: "failingRegistry ''svc.ns'' 80 (SubsetToLabels examplePush [] ''svc.ns'') =
     Inl (Error ''unavailable'')"
    by (simp add: failingRegistry_def)
  from updateCluster_error_keeps_assignment [OF run key, of "Error ''unavailable''"] q
  have "r = Some (Error ''unavailable'') \<and> c' = exampleCluster" by simp
  with run key q show ?thesis by simp
qed

subsection \<open>The incremental path\<close>

lemma grouped_Nil: "grouped [] []"
  by (simp add: grouped_def)

lemma filter_fst_empty: "z \<notin> fst ` set ps \<Longrightarrow> filter (\<lambda>p. fst p = z) ps = []"
  by (induction ps) auto

lemma grouped_append:
  assumes "grouped m ps"
  shows "grouped (appendLbEndpoint z e m) (ps @ [(z, e)])"
proof -
  from assms have d: "distinct (map fst m)"
    and mo: "\<And>z'. map_of m z' =
        (if z' \<in> fst ` set ps then Some (groupOf z' (map snd (filter (\<lambda>p. fst p = z') ps)))
         else None)"
    by (simp_all add: grouped_def)
  define g where "g = (case map_of m z of None \<Rightarrow> newLocalityLbEndpoints z | Some g \<Rightarrow> g)"
  have app: "appendLbEndpoint z e m = AList.update z (g\<lparr>LbEndpoints := LbEndpoints g @ [e]\<rparr>) m"
    by (simp add: appendLbEndpoint_def g_def Let_def)
  have gz: "g\<lparr>LbEndpoints := LbEndpoints g @ [e]\<rparr> =
              groupOf z (map snd (filter (\<lambda>p. fst p = z) (ps @ [(z, e)])))"
  proof (cases "z \<in> fst ` set ps")
    case True
    then have "g = groupOf z (map snd (filter (\<lambda>p. fst p = z) ps))" by (simp add: g_def mo)
    then show ?thesis by (simp add: groupOf_def)
  next
    case False
    then have "g = newLocalityLbEndpoints z" by (simp add: g_def mo)
    with False show ?thesis
      by (simp add: groupOf_def filter_fst_empty newLocalityLbEndpoints_def)
  qed
  have "distinct (map fst (appendLbEndpoint z e m))"
    unfolding app using d by (rule distinct_update)
  moreover have "map_of (appendLbEndpoint z e m) z' =
        (if z' \<in> fst ` set (ps @ [(z, e)])
         then Some (groupOf z' (map snd (filter (\<lambda>p. fst p = z') (ps @ [(z, e)]))))
         else None)" for z'
  proof (cases "z' = z")
    case True
    then show ?thesis by (simp add: app update_conv' gz)
  next
    case False
    then show ?thesis by (simp add: app update_conv' mo)
  qed
  ultimately show ?thesis by (simp add: grouped_def)
qed

lemma grouped_appendAll:
  "grouped m ps0 \<Longrightarrow> grouped (appendAll ps m) (ps0 @ ps)"
proof (induction ps arbitrary: m ps0)
  case Nil
  then show ?case by (simp add: appendAll_def)
next
  case (Cons p ps)
  obtain z e where p: "p = (z, e)" by (cases p)
  from Cons.prems have "grouped (appendLbEndpoint z e m) (ps0 @ [(z, e)])"
    by (rule grouped_append)
  then have "grouped (appendAll ps (appendLbEndpoint z e m)) ((ps0 @ [(z, e)]) @ ps)"
    by (rule Cons.IH)
  then show ?case by (simp add: appendAll_def p)
qed

lemma appendAll_append: "appendAll (ps @ qs) m = appendAll qs (appendAll ps m)"
  by (simp add: appendAll_def)

lemma entriesLoop_acc:
  "snd (entriesLoop M n l els (cnt, m)) =
     (cnt + length (filter (selects n l) els), appendAll (selectedPairs M n l els) m)"
  by (induction els arbitrary: cnt m)
    (auto simp add: selects_def selectedPairs_def appendAll_def zoneOf_def Let_def
      case_prod_unfold)

lemma entriesLoop_entries:
  "fst (entriesLoop M n l els (cnt, m)) =
     map (\<lambda>el. if selects n l el then el\<lparr>EnvoyEndpoint := Some (envoyEndpointOf el)\<rparr> else el)
       els"
  by (induction els arbitrary: cnt m)
    (auto simp add: selects_def Let_def case_prod_unfold)

lemma shardsLoop_acc:
  "snd (shardsLoop M n l shards (cnt, m)) =
     (cnt + length (filter (selects n l) (concat (map (\<lambda>(k, es). Entries es) shards))),
      appendAll (selectedPairs M n l (concat (map (\<lambda>(k, es). Entries es) shards))) m)"
proof (induction shards arbitrary: cnt m)
  case Nil
  show ?case by (simp add: selectedPairs_def appendAll_def)
next
  case (Cons sh shards)
  obtain k es where sh: "sh = (k, es)" by (cases sh)
  obtain els' acc' where e: "entriesLoop M n l (Entries es) (cnt, m) = (els', acc')"
    by (cases "entriesLoop M n l (Entries es) (cnt, m)")
  have acc': "acc' = (cnt + length (filter (selects n l) (Entries es)),
                     appendAll (selectedPairs M n l (Entries es)) m)"
    using entriesLoop_acc [of M n l "Entries es" cnt m] e by simp
  show ?case
    using Cons.IH [of "cnt + length (filter (selects n l) (Entries es))"
        "appendAll (selectedPairs M n l (Entries es)) m"]
    by (simp add: sh e acc' selectedPairs_def appendAll_append case_prod_unfold)
qed

lemma selectedPairs_zone:
  "map snd (filter (\<lambda>p. fst p = z) (selectedPairs M n l els)) =
     map envoyEndpointOf (filter (\<lambda>el. selects n l el \<and> zoneOf M el = z) els)"
  by (induction els) (simp_all add: selectedPairs_def)

lemma selectedPairs_zones:
  "fst ` set (selectedPairs M n l els) = zoneOf M ` {el \<in> set els. selects n l el}"
  by (auto simp: selectedPairs_def image_iff)

lemma grouped_selected: "grouped (appendAll ps []) ps"
  using grouped_appendAll [OF grouped_Nil, of ps] by simp

lemma grouped_member:
  assumes "grouped m ps" and "(k, g) \<in> set m"
  shows "g = groupOf k (map snd (filter (\<lambda>p. fst p = k) ps))"
proof -
  from assms have "distinct (map fst m)" by (simp add: grouped_def)
  with assms(2) have "map_of m k = Some g" by simp
  moreover from assms(1) have "map_of m k =
        (if k \<in> fst ` set ps then Some (groupOf k (map snd (filter (\<lambda>p. fst p = k) ps)))
         else None)" by (simp add: grouped_def)
  ultimately show ?thesis by (simp split: if_splits)
qed

lemma grouped_keys:
  assumes "grouped m ps"
  shows "fst ` set m = fst ` set ps"
proof -
  have "fst ` set m = {z. map_of m z \<noteq> None}" by (auto simp: map_of_eq_None_iff)
  also have "\<dots> = fst ` set ps" using assms by (auto simp: grouped_def)
  finally show ?thesis .
qed

lemma updateClusterInc_incremental:
  assumes key: "ParseSubsetKey M clusterName = (direction, subsetName, hostname, port)"
    and pm: "ServicePort2Name push hostname = Some portMap"
    and sp: "GetByPort portMap port = Some svcPort"
    and se: "EndpointShardsByService s hostname = Some se"
    and run: "updateClusterInc M InstancesByPort now s push clusterName edsCluster eff =
                (err, s', push', c', eff')"
  shows "err = None"
    and "InstancesByPort_calls eff' = InstancesByPort_calls eff"
    and "edsInstances eff' clusterName =
           Some (length (filter (selects (Port_Name svcPort)
                   (SubsetToLabels push subsetName hostname)) (allEntries se)))"
    and "LoadAssignment c' =
           Some \<lparr>ClusterName = clusterName,
                 Endpoints = map (\<lambda>(k, g). setWeightToLen g)
                   (appendAll (selectedPairs M (Port_Name svcPort)
                      (SubsetToLabels push subsetName hostname) (allEntries se)) [])\<rparr>"
proof -
  let ?l = "SubsetToLabels push subsetName hostname"
  obtain shards' acc where sl: "shardsLoop M (Port_Name svcPort) ?l (Shards se) (0, []) = (shards', acc)"
    by (cases "shardsLoop M (Port_Name svcPort) ?l (Shards se) (0, [])")
  have acc: "acc = (length (filter (selects (Port_Name svcPort) ?l) (allEntries se)),
                    appendAll (selectedPairs M (Port_Name svcPort) ?l (allEntries se)) [])"
    using shardsLoop_acc [of M "Port_Name svcPort" ?l "Shards se" 0 "[]"] sl
    by (simp add: allEntries_def)
  from run show "err = None" "InstancesByPort_calls eff' = InstancesByPort_calls eff"
    "edsInstances eff' clusterName =
           Some (length (filter (selects (Port_Name svcPort) ?l) (allEntries se)))"
    "LoadAssignment c' =
           Some \<lparr>ClusterName = clusterName,
                 Endpoints = map (\<lambda>(k, g). setWeightToLen g)
                   (appendAll (selectedPairs M (Port_Name svcPort) ?l (allEntries se)) [])\<rparr>"
    by (auto simp add: updateClusterInc_def key pm sp se sl acc Let_def
        installLoadAssignment_def)
qed

text \<open>
  C6. On the incremental path of \<^verbatim>\<open>updateClusterInc\<close> the installed assignment has one
  group for every zone label of an endpoint that the port name and the subset labels
  select, and no other group (the empty zone is a group like any other). The group of a
  zone holds the wire endpoints of exactly the selected endpoints of that zone, in the
  order of the shards, and its weight is the \<^verbatim>\<open>uint32\<close> of their number: their number, when
  that is below \<open>2\<^sup>3\<^sup>2\<close>.
\<close>

theorem updateClusterInc_selects_and_groups:
  assumes key: "ParseSubsetKey M clusterName = (direction, subsetName, hostname, port)"
    and pm: "ServicePort2Name push hostname = Some portMap"
    and sp: "GetByPort portMap port = Some svcPort"
    and se: "EndpointShardsByService s hostname = Some se"
    and run: "updateClusterInc M InstancesByPort now s push clusterName edsCluster eff =
                (err, s', push', c', eff')"
  shows "\<exists>locEps.
           LoadAssignment c' = Some \<lparr>ClusterName = clusterName, Endpoints = locEps\<rparr> \<and>
           distinct (map groupZone locEps) \<and>
           set (map groupZone locEps) =
             zoneOf M ` {el \<in> set (allEntries se).
               selects (Port_Name svcPort) (SubsetToLabels push subsetName hostname) el} \<and>
           (\<forall>g \<in> set locEps.
              Locality g = Some \<lparr>Region = [], Zone = groupZone g, SubZone = []\<rparr> \<and>
              LbEndpoints g =
                map envoyEndpointOf
                  (filter (\<lambda>el. selects (Port_Name svcPort)
                                  (SubsetToLabels push subsetName hostname) el \<and>
                                zoneOf M el = groupZone g)
                     (allEntries se)) \<and>
              LoadBalancingWeight g = Some (of_nat (length (LbEndpoints g))) \<and>
              (length (LbEndpoints g) < 2 ^ 32 \<longrightarrow>
                 unat (GetValue (LoadBalancingWeight g)) = length (LbEndpoints g)))"
proof -
  let ?n = "Port_Name svcPort"
  let ?l = "SubsetToLabels push subsetName hostname"
  let ?ps = "selectedPairs M ?n ?l (allEntries se)"
  let ?m = "appendAll ?ps []"
  let ?locEps = "map (\<lambda>(k, g). setWeightToLen g) ?m"
  have g: "grouped ?m ?ps" by (rule grouped_selected)
  have la: "LoadAssignment c' = Some \<lparr>ClusterName = clusterName, Endpoints = ?locEps\<rparr>"
    by (rule updateClusterInc_incremental(4) [OF key pm sp se run])
  have member: "g' = setWeightToLen (groupOf k (map envoyEndpointOf
                  (filter (\<lambda>el. selects ?n ?l el \<and> zoneOf M el = k) (allEntries se))))"
    if "(k, g') \<in> set (map (\<lambda>(k, g). (k, setWeightToLen g)) ?m)" for k g'
  proof -
    from that obtain g0 where "(k, g0) \<in> set ?m" and "g' = setWeightToLen g0" by auto
    with grouped_member [OF g] show ?thesis by (simp add: selectedPairs_zone)
  qed
  have zone: "groupZone (setWeightToLen g0) = k" if "(k, g0) \<in> set ?m" for k g0
    using grouped_member [OF g that]
    by (simp add: groupZone_def setWeightToLen_def groupOf_def newLocalityLbEndpoints_def)
  have zones: "map groupZone ?locEps = map fst ?m"
    using zone by (auto simp: case_prod_unfold)
  have d: "distinct (map groupZone ?locEps)"
    unfolding zones using g by (simp add: grouped_def)
  have k: "set (map groupZone ?locEps) = zoneOf M ` {el \<in> set (allEntries se). selects ?n ?l el}"
    unfolding zones using grouped_keys [OF g] by (simp add: selectedPairs_zones)
  have each: "Locality g' = Some \<lparr>Region = [], Zone = groupZone g', SubZone = []\<rparr> \<and>
              LbEndpoints g' =
                map envoyEndpointOf
                  (filter (\<lambda>el. selects ?n ?l el \<and> zoneOf M el = groupZone g') (allEntries se)) \<and>
              LoadBalancingWeight g' = Some (of_nat (length (LbEndpoints g'))) \<and>
              (length (LbEndpoints g') < 2 ^ 32 \<longrightarrow>
                 unat (GetValue (LoadBalancingWeight g')) = length (LbEndpoints g'))"
    if "g' \<in> set ?locEps" for g'
  proof -
    from that obtain k0 g0 where in_m: "(k0, g0) \<in> set ?m" and g': "g' = setWeightToLen g0"
      by auto
    have z: "groupZone g' = k0" using zone [OF in_m] g' by simp
    have "g0 = groupOf k0 (map envoyEndpointOf
                  (filter (\<lambda>el. selects ?n ?l el \<and> zoneOf M el = k0) (allEntries se)))"
      using grouped_member [OF g in_m] by (simp add: selectedPairs_zone)
    then show ?thesis
      unfolding z
      by (simp add: g' setWeightToLen_def groupOf_def newLocalityLbEndpoints_def GetValue_def
          unat_of_nat)
  qed
  from la d k each show ?thesis by blast
qed


theorem updateClusterInc_selects_and_groups_witness:
  "ParseSubsetKey exampleModel ''outbound|80||svc.ns'' =
     (TrafficDirectionOutbound, [], ''svc.ns'', 80) \<and>
   ServicePort2Name subsetPush ''svc.ns'' = Some [examplePort] \<and>
   GetByPort [examplePort] 80 = Some examplePort \<and>
   EndpointShardsByService exampleServer ''svc.ns'' = Some exampleShards \<and>
   LoadAssignment (fst (snd (snd (snd
     (updateClusterInc exampleModel failingRegistry 7 exampleServer subsetPush
        ''outbound|80||svc.ns'' exampleCluster exampleEffects))))) =
     Some \<lparr>ClusterName = ''outbound|80||svc.ns'',
           Endpoints =
             [\<lparr>Locality = Some \<lparr>Region = [], Zone = ''z1'', SubZone = []\<rparr>,
               LbEndpoints =
                 [\<lparr>Endpoint_Address = Address_SocketAddress ''10.0.0.2'' 80,
                   Metadata = None\<rparr>],
               LoadBalancingWeight = Some 1\<rparr>]\<rparr> \<and>
   (\<exists>locEps.
      LoadAssignment (fst (snd (snd (snd
        (updateClusterInc exampleModel failingRegistry 7 exampleServer subsetPush
           ''outbound|80||svc.ns'' exampleCluster exampleEffects))))) =
        Some \<lparr>ClusterName = ''outbound|80||svc.ns'', Endpoints = locEps\<rparr> \<and>
      distinct (map groupZone locEps) \<and>
      set (map groupZone locEps) = {''z1''})"
proof -
  let ?R = "updateClusterInc exampleModel failingRegistry 7 exampleServer subsetPush
              ''outbound|80||svc.ns'' exampleCluster exampleEffects"
  have key: "ParseSubsetKey exampleModel ''outbound|80||svc.ns'' =
               (TrafficDirectionOutbound, [], ''svc.ns'', 80)"
    by (simp add: exampleModel_def)
  have pm: "ServicePort2Name subsetPush ''svc.ns'' = Some [examplePort]"
    by (simp add: subsetPush_def)
  have sp: "GetByPort [examplePort] 80 = Some examplePort"
    by (simp add: GetByPort_def examplePort_def)
  have se: "EndpointShardsByService exampleServer ''svc.ns'' = Some exampleShards"
    by (simp add: exampleServer_def)
  have run: "?R = (fst ?R, fst (snd ?R), fst (snd (snd ?R)), fst (snd (snd (snd ?R))),
                   snd (snd (snd (snd ?R))))"
    by simp
  have sel: "filter (selects (Port_Name examplePort) (SubsetToLabels subsetPush [] ''svc.ns''))
                (allEntries exampleShards) = [endpointB]"
    by (simp add: allEntries_def exampleShards_def selects_def examplePort_def subsetPush_def
        HasSubsetOf_def endpointA_def endpointB_def)
  have "{el \<in> set (allEntries exampleShards).
           selects (Port_Name examplePort) (SubsetToLabels subsetPush [] ''svc.ns'') el} =
        set (filter (selects (Port_Name examplePort) (SubsetToLabels subsetPush [] ''svc.ns''))
               (allEntries exampleShards))"
    by simp
  then have zones: "zoneOf exampleModel `
                 {el \<in> set (allEntries exampleShards).
                    selects (Port_Name examplePort)
                      (SubsetToLabels subsetPush [] ''svc.ns'') el} = {''z1''}"
    unfolding sel by (simp add: zoneOf_def label_def exampleModel_def endpointB_def)
  have val: "LoadAssignment (fst (snd (snd (snd ?R)))) =
     Some \<lparr>ClusterName = ''outbound|80||svc.ns'',
           Endpoints =
             [\<lparr>Locality = Some \<lparr>Region = [], Zone = ''z1'', SubZone = []\<rparr>,
               LbEndpoints =
                 [\<lparr>Endpoint_Address = Address_SocketAddress ''10.0.0.2'' 80,
                   Metadata = None\<rparr>],
               LoadBalancingWeight = Some 1\<rparr>]\<rparr>"
    by (simp add: updateClusterInc_def exampleModel_def exampleServer_def subsetPush_def
        exampleShards_def GetByPort_def examplePort_def endpointA_def endpointB_def
        HasSubsetOf_def label_def appendLbEndpoint_def newLocalityLbEndpoints_def
        envoyEndpointOf_def buildEnvoyLbEndpoint_def setWeightToLen_def
        installLoadAssignment_def exampleCluster_def exampleEffects_def Let_def)
  from updateClusterInc_selects_and_groups [OF key pm sp se run]
  obtain locEps where "LoadAssignment (fst (snd (snd (snd ?R)))) =
        Some \<lparr>ClusterName = ''outbound|80||svc.ns'', Endpoints = locEps\<rparr>"
    and "distinct (map groupZone locEps)"
    and "set (map groupZone locEps) =
           zoneOf exampleModel `
                 {el \<in> set (allEntries exampleShards).
                    selects (Port_Name examplePort)
                      (SubsetToLabels subsetPush [] ''svc.ns'') el}"
    by blast
  with zones have "\<exists>locEps.
      LoadAssignment (fst (snd (snd (snd ?R)))) =
        Some \<lparr>ClusterName = ''outbound|80||svc.ns'', Endpoints = locEps\<rparr> \<and>
      distinct (map groupZone locEps) \<and>
      set (map groupZone locEps) = {''z1''}"
    by auto
  with key pm sp se val show ?thesis by blast
qed

text \<open>
  C7. \<^verbatim>\<open>updateClusterInc\<close> is \<^verbatim>\<open>updateCluster\<close> when the push context has no port list for the
  host, or the list has no port of the cluster's number, or the server has no shards for
  the host; an inbound or outbound cluster then sends one query to the registry. In
  every other case it returns nil and sends no query.
\<close>

theorem updateClusterInc_delegates:
  assumes key: "ParseSubsetKey M clusterName = (direction, subsetName, hostname, port)"
  shows "(fallsBack M s push clusterName \<longrightarrow>
            updateClusterInc M InstancesByPort now s push clusterName edsCluster eff =
              (case updateCluster M InstancesByPort now push clusterName edsCluster eff of
                 (err, push', c', eff') \<Rightarrow> (err, s, push', c', eff'))) \<and>
         (fallsBack M s push clusterName \<and>
          (direction = TrafficDirectionInbound \<or> direction = TrafficDirectionOutbound) \<longrightarrow>
            InstancesByPort_calls (snd (snd (snd (snd
              (updateClusterInc M InstancesByPort now s push clusterName edsCluster eff))))) =
              InstancesByPort_calls eff @
                [(hostname, port, SubsetToLabels push subsetName hostname)]) \<and>
         (\<not> fallsBack M s push clusterName \<longrightarrow>
            fst (updateClusterInc M InstancesByPort now s push clusterName edsCluster eff) = None \<and>
            InstancesByPort_calls (snd (snd (snd (snd
              (updateClusterInc M InstancesByPort now s push clusterName edsCluster eff))))) =
              InstancesByPort_calls eff)"
proof -
  let ?inc = "updateClusterInc M InstancesByPort now s push clusterName edsCluster eff"
  let ?full = "updateCluster M InstancesByPort now push clusterName edsCluster eff"
  have c1: "?inc = (case ?full of (err, push', c', eff') \<Rightarrow> (err, s, push', c', eff'))"
    if "fallsBack M s push clusterName"
    using that
    by (auto simp: fallsBack_def updateClusterInc_def key Let_def split: option.splits)
  have c2: "InstancesByPort_calls (snd (snd (snd (snd ?inc)))) =
              InstancesByPort_calls eff @
                [(hostname, port, SubsetToLabels push subsetName hostname)]"
    if f: "fallsBack M s push clusterName"
      and d: "direction = TrafficDirectionInbound \<or> direction = TrafficDirectionOutbound"
  proof -
    have "InstancesByPort_calls (snd (snd (snd ?full))) =
            InstancesByPort_calls eff @
              [(hostname, port, SubsetToLabels push subsetName hostname)]"
      using d by (auto simp: updateCluster_def key Let_def split: sum.splits prod.splits)
    then show ?thesis by (simp add: c1 [OF f] case_prod_unfold)
  qed
  have c3: "fst ?inc = None \<and>
            InstancesByPort_calls (snd (snd (snd (snd ?inc)))) = InstancesByPort_calls eff"
    if nf: "\<not> fallsBack M s push clusterName"
  proof -
    from nf obtain portMap svcPort se where pm: "ServicePort2Name push hostname = Some portMap"
      and sp: "GetByPort portMap port = Some svcPort"
      and se: "EndpointShardsByService s hostname = Some se"
      by (auto simp: fallsBack_def key split: option.splits)
    have run: "?inc = (fst ?inc, fst (snd ?inc), fst (snd (snd ?inc)),
                       fst (snd (snd (snd ?inc))), snd (snd (snd (snd ?inc))))"
      by simp
    from updateClusterInc_incremental(1,2) [OF key pm sp se run] show ?thesis by simp
  qed
  from c1 c2 c3 show ?thesis by blast
qed

theorem updateClusterInc_delegates_witness:
  "fallsBack exampleModel exampleServer examplePush ''outbound|80||svc.ns'' \<and>
   updateClusterInc exampleModel failingRegistry 7 exampleServer examplePush
       ''outbound|80||svc.ns'' exampleCluster exampleEffects =
     (Some (Error ''unavailable''), exampleServer, examplePush, exampleCluster,
      exampleEffects\<lparr>totalXDSInternalErrors := 1,
                      InstancesByPort_calls := [(''svc.ns'', 80, [])]\<rparr>) \<and>
   \<not> fallsBack exampleModel exampleServer subsetPush ''outbound|80||svc.ns'' \<and>
   fst (updateClusterInc exampleModel failingRegistry 7 exampleServer subsetPush
       ''outbound|80||svc.ns'' exampleCluster exampleEffects) = None \<and>
   InstancesByPort_calls (snd (snd (snd (snd
     (updateClusterInc exampleModel failingRegistry 7 exampleServer subsetPush
       ''outbound|80||svc.ns'' exampleCluster exampleEffects))))) = []"
proof -
  have key: "ParseSubsetKey exampleModel ''outbound|80||svc.ns'' =
               (TrafficDirectionOutbound, [], ''svc.ns'', 80)"
    by (simp add: exampleModel_def)
  have f1: "fallsBack exampleModel exampleServer examplePush ''outbound|80||svc.ns''"
    by (simp add: fallsBack_def exampleModel_def examplePush_def)
  have f2: "\<not> fallsBack exampleModel exampleServer subsetPush ''outbound|80||svc.ns''"
    by (simp add: fallsBack_def exampleModel_def subsetPush_def exampleServer_def
        GetByPort_def examplePort_def)
  have full: "updateCluster exampleModel failingRegistry 7 examplePush ''outbound|80||svc.ns''
                exampleCluster exampleEffects =
     (Some (Error ''unavailable''), examplePush, exampleCluster,
      exampleEffects\<lparr>totalXDSInternalErrors := 1,
                      InstancesByPort_calls := [(''svc.ns'', 80, [])]\<rparr>)"
    by (simp add: updateCluster_def exampleModel_def failingRegistry_def examplePush_def
        exampleEffects_def Let_def)
  have e: "InstancesByPort_calls exampleEffects = []" by (simp add: exampleEffects_def)
  show ?thesis
    using updateClusterInc_delegates [OF key, where s = exampleServer and push = examplePush
        and InstancesByPort = failingRegistry and now = 7 and edsCluster = exampleCluster
        and eff = exampleEffects]
      updateClusterInc_delegates [OF key, where s = exampleServer and push = subsetPush
        and InstancesByPort = failingRegistry and now = 7 and edsCluster = exampleCluster
        and eff = exampleEffects]
      f1 f2 full e
    by simp
qed

subsection \<open>Shard updates\<close>

lemma edsUpdateLoop_eq:
  "edsUpdateLoop A internal es (ce, rf) =
     (ce @ es, rf \<or> (\<not> internal \<and> list_ex (\<lambda>e. ServiceAccount e \<noteq> [] \<and> ServiceAccount e \<notin> A) es))"
  by (induction es arbitrary: ce rf) auto

lemma update_mem: "(k, v) \<in> set (AList.update k v al)"
  by (induction al) auto


lemma edsUpdate_serviceAccountsOf:
  "serviceAccountsOf (edsUpdate s shard serviceName entries internal) svc =
     serviceAccountsOf s svc"
  by (auto simp: edsUpdate_def edsUpdateLoop_eq Let_def serviceAccountsOf_def
      split: option.splits)

lemma allEntries_update:
  "set entries \<subseteq>
     set (allEntries (ep\<lparr>Shards := AList.update shard \<lparr>Shard = shard, Entries = entries\<rparr>
                                  (Shards ep)\<rparr>))"
  using update_mem [of shard "\<lparr>Shard = shard, Entries = entries\<rparr>" "Shards ep"]
  by (force simp: allEntries_def)

lemma edsUpdate_shardAccounts:
  assumes "e \<in> set entries" and "ServiceAccount e \<noteq> []"
  shows "ServiceAccount e \<in>
           shardAccounts (edsUpdate s shard serviceName entries internal) serviceName"
proof (cases "EndpointShardsByService s serviceName")
  case None
  with assms show ?thesis
    by (auto simp add: edsUpdate_def edsUpdateLoop_eq shardAccounts_def allEntries_def)
next
  case (Some ep)
  have "e \<in> set (allEntries (ep\<lparr>Shards := AList.update shard
                     \<lparr>Shard = shard, Entries = entries\<rparr> (Shards ep)\<rparr>))"
    using allEntries_update [where entries = entries and ep = ep and shard = shard] assms(1)
    by blast
  with assms(2) Some show ?thesis
    by (auto simp add: edsUpdate_def edsUpdateLoop_eq shardAccounts_def)
qed

text \<open>
  C2 as the code has it. \<^verbatim>\<open>edsUpdate\<close> never writes \<^verbatim>\<open>ServiceAccounts\<close>: after any sequence of
  shard updates the set of every service is what it was before (empty for a service
  first seen in the sequence), while each update puts the non-empty service accounts of
  its entries into the union over the shards of its service.
\<close>

theorem edsUpdateAll_keeps_ServiceAccounts:
  "serviceAccountsOf (edsUpdateAll ups s) svc = serviceAccountsOf s svc \<and>
   (\<forall>e \<in> set entries. ServiceAccount e \<noteq> [] \<longrightarrow>
      ServiceAccount e \<in>
        shardAccounts (edsUpdate s shard serviceName entries internal) serviceName)"
proof
  show "serviceAccountsOf (edsUpdateAll ups s) svc = serviceAccountsOf s svc"
    unfolding edsUpdateAll_def
    by (induction ups arbitrary: s) (auto simp: edsUpdate_serviceAccountsOf)
  show "\<forall>e \<in> set entries. ServiceAccount e \<noteq> [] \<longrightarrow>
      ServiceAccount e \<in>
        shardAccounts (edsUpdate s shard serviceName entries internal) serviceName"
    by (auto intro: edsUpdate_shardAccounts)
qed

theorem edsUpdateAll_keeps_ServiceAccounts_witness:
  "serviceAccountsOf (edsUpdateAll [(''r2'', ''svc.ns'', [endpointB], False)] knownServer)
     ''svc.ns'' = {''a''} \<and>
   ''b'' \<in> shardAccounts (edsUpdate knownServer ''r2'' ''svc.ns'' [endpointB] False) ''svc.ns''"
proof -
  have "serviceAccountsOf knownServer ''svc.ns'' = {''a''}"
    by (simp add: serviceAccountsOf_def knownServer_def)
  moreover have "ServiceAccount endpointB = ''b''" by (simp add: endpointB_def)
  ultimately show ?thesis
    using edsUpdateAll_keeps_ServiceAccounts
      [where ups = "[(''r2'', ''svc.ns'', [endpointB], False)]" and s = knownServer
         and svc = "''svc.ns''" and entries = "[endpointB]" and shard = "''r2''"
         and serviceName = "''svc.ns''" and internal = False]
    by simp
qed

text \<open>
  C2 as stated fails: a service with \<^verbatim>\<open>ServiceAccounts\<close> \<open>{a}\<close> and the endpoint A of
  account a in shard r1 gets, in shard r2, the endpoint B of account b. After the call the
  union over the shards is \<open>{a, b}\<close> and \<^verbatim>\<open>ServiceAccounts\<close> is still \<open>{a}\<close>.
\<close>

theorem edsUpdate_ServiceAccounts_counterexample:
  "serviceAccountsOf knownServer ''svc.ns'' = {''a''} \<and>
   shardAccounts knownServer ''svc.ns'' = {''a''} \<and>
   serviceAccountsOf (edsUpdate knownServer ''r2'' ''svc.ns'' [endpointB] False) ''svc.ns'' =
     {''a''} \<and>
   shardAccounts (edsUpdate knownServer ''r2'' ''svc.ns'' [endpointB] False) ''svc.ns'' =
     {''a'', ''b''} \<and>
   serviceAccountsOf (edsUpdate knownServer ''r2'' ''svc.ns'' [endpointB] False) ''svc.ns'' \<noteq>
     shardAccounts (edsUpdate knownServer ''r2'' ''svc.ns'' [endpointB] False) ''svc.ns''"
  by (auto simp add: serviceAccountsOf_def shardAccounts_def allEntries_def edsUpdate_def
      knownServer_def endpointA_def endpointB_def)

text \<open>
  C4 as the code has it. \<^verbatim>\<open>edsUpdate\<close> calls \<^verbatim>\<open>ConfigUpdate\<close> once, with \<^verbatim>\<open>true\<close> exactly when
  \<^verbatim>\<open>internal\<close> is false and the service was unknown or some entry carries a non-empty
  service account that the service does not have; with \<^verbatim>\<open>false\<close> in every other case, so
  always when \<^verbatim>\<open>internal\<close> is true.
\<close>

theorem edsUpdate_push_signal:
  "ConfigUpdate_calls (edsUpdate s shard serviceName entries internal) =
     ConfigUpdate_calls s @
       [\<not> internal \<and> (EndpointShardsByService s serviceName = None \<or>
                        newAccount s serviceName entries)]"
  by (auto simp: edsUpdate_def edsUpdateLoop_eq Let_def newAccount_def serviceAccountsOf_def
      split: option.splits)

theorem edsUpdate_push_signal_witness:
  "ConfigUpdate_calls (edsUpdate knownServer ''r2'' ''svc.ns'' [endpointB] False) = [True] \<and>
   ConfigUpdate_calls (edsUpdate knownServer ''r2'' ''svc.ns'' [endpointA] False) = [False] \<and>
   ConfigUpdate_calls (edsUpdate knownServer ''r1'' ''other.ns'' [] False) = [True] \<and>
   ConfigUpdate_calls (edsUpdate knownServer ''r1'' ''other.ns'' [] True) = [False]"
  using edsUpdate_push_signal [where s = knownServer and shard = "''r2''"
        and serviceName = "''svc.ns''" and entries = "[endpointB]" and internal = False]
    edsUpdate_push_signal [where s = knownServer and shard = "''r2''"
        and serviceName = "''svc.ns''" and entries = "[endpointA]" and internal = False]
    edsUpdate_push_signal [where s = knownServer and shard = "''r1''"
        and serviceName = "''other.ns''" and entries = "[]" and internal = False]
    edsUpdate_push_signal [where s = knownServer and shard = "''r1''"
        and serviceName = "''other.ns''" and entries = "[]" and internal = True]
  by (simp add: newAccount_def serviceAccountsOf_def knownServer_def endpointA_def
      endpointB_def)

text \<open>
  C4 as stated fails: with \<^verbatim>\<open>internal\<close> true, an entry with the new service account b for
  a known service is answered with \<^verbatim>\<open>ConfigUpdate(false)\<close>.
\<close>

theorem edsUpdate_internal_counterexample:
  "EndpointShardsByService knownServer ''svc.ns'' \<noteq> None \<and>
   newAccount knownServer ''svc.ns'' [endpointB] \<and>
   ConfigUpdate_calls (edsUpdate knownServer ''r2'' ''svc.ns'' [endpointB] True) = [False]"
  by (simp add: newAccount_def serviceAccountsOf_def edsUpdate_def knownServer_def
      endpointA_def endpointB_def)

text \<open>
  C10. \<^verbatim>\<open>EDSUpdate\<close> returns a nil error for every server state, shard, service name and
  list of endpoints.
\<close>

theorem EDSUpdate_returns_nil:
  "snd (EDSUpdate s shard serviceName entries) = None"
  by (simp add: EDSUpdate_def)

theorem EDSUpdate_returns_nil_witness:
  "snd (EDSUpdate \<lparr>EndpointShardsByService = Map.empty, edsUpdates = {},
                   ConfigUpdate_calls = []\<rparr> ''r1'' ''svc.ns'' []) = None"
  by (rule EDSUpdate_returns_nil)

end
